theory Spec2Isabelle
  imports Complex_Main "HOL-Library.Word"
begin

section \<open>Video to prompt generator: scene sampling\<close>

text \<open>
  The page component keeps the metadata of the loaded video in \<open>videoMeta\<close>, which is
  \<open>null\<close> until a video with a usable duration has been loaded. JavaScript numbers
  are modelled as real numbers with exact arithmetic (no rounding, no overflow); the
  values that are not real numbers are modelled apart where the code can meet them:
  \<open>NaN\<close> (and \<open>undefined\<close> turned into a number) is \<open>None\<close> of \<open>real option\<close>,
  and \<open>formatTime\<close> takes the infinities as well. The duration stored in
  \<open>videoMeta\<close> is never \<open>NaN\<close> or zero; an infinite duration is outside the model.
  \<open>Math.round\<close> rounds half up, which is \<^const>\<open>round\<close>. Function parameters
  whose names are record fields here are abbreviated (\<open>d\<close> for \<open>duration\<close>, \<open>n\<close> for
  \<open>sceneCount\<close>, \<open>w\<close> and \<open>h\<close> for \<open>width\<close> and \<open>height\<close>).
\<close>

record videoMeta =
  duration :: real
  width :: nat
  height :: nat

record videoElement =
  video_duration :: "real option"
  videoWidth :: nat
  videoHeight :: nat

definition maxSceneSamples :: int where
  "maxSceneSamples = 10"

text \<open>
  \<open>handleVideoLoaded\<close>: the first argument is \<open>videoRef.current\<close>, the second the
  current value of the state \<open>videoMeta\<close>; the result is its next value.
  \<open>video.duration\<close> is falsy when it is \<open>NaN\<close> or zero.
\<close>

definition handleVideoLoaded :: "videoElement option \<Rightarrow> videoMeta option \<Rightarrow> videoMeta option" where
  "handleVideoLoaded video prev =
     (case video of
        None \<Rightarrow> prev
      | Some v \<Rightarrow>
          (case video_duration v of
             None \<Rightarrow> prev
           | Some d \<Rightarrow>
               if d = 0 then prev
               else Some \<lparr>duration = d, width = videoWidth v, height = videoHeight v\<rparr>))"

definition sceneCount :: "videoMeta option \<Rightarrow> int \<Rightarrow> int" where
  "sceneCount meta granularity =
     (case meta of
        None \<Rightarrow> 0
      | Some m \<Rightarrow>
          (let base = max 3 (round ((duration m / 20) * (of_int granularity + 1)))
           in min maxSceneSamples base))"

text \<open>
  \<open>buildCapturePoints(duration, sceneCount)\<close>. The loop
  \<open>for (let i = 1; i <= sceneCount; i += 1)\<close> is \<open>pointsLoop\<close>, with the array
  \<open>points\<close> as accumulator.
\<close>

definition safeDuration :: "real \<Rightarrow> real" where
  "safeDuration d = max (d - 0.5) d"

function pointsLoop :: "real \<Rightarrow> real \<Rightarrow> int \<Rightarrow> int \<Rightarrow> real list \<Rightarrow> real list" where
  "pointsLoop d step n i points =
     (if i \<le> n then pointsLoop d step n (i + 1) (points @ [min (d - 0.1) (step * of_int i)])
      else points)"
  by pat_completeness auto
termination
  by (relation "measure (\<lambda>(d, step, n, i, points). nat (n + 1 - i))") auto

declare pointsLoop.simps [simp del]

definition buildCapturePoints :: "real \<Rightarrow> int \<Rightarrow> real list" where
  "buildCapturePoints d n =
     (if d = 0 \<or> n = 0 then []
      else
        let step = safeDuration d / (of_int n + 1)
        in pointsLoop d step n 1 [])"

section \<open>Colour and brightness analysis\<close>

subsection \<open>Numbers that may be NaN\<close>

text \<open>
  Reading a typed array out of range gives \<open>undefined\<close>, which arithmetic turns into
  \<open>NaN\<close>. In the analysis a number is therefore a \<open>real option\<close>, \<open>None\<close> being
  \<open>NaN\<close>: an arithmetic operation with a \<open>NaN\<close> operand is \<open>NaN\<close>, and every
  comparison with \<open>NaN\<close>, \<open>===\<close> included, is false. A division by zero is written
  out as \<open>None\<close> as well; in \<open>rgbToHsl\<close> no divisor is zero for channels between 0
  and 255 (lemma \<open>rgbToHsl_divisor_pos\<close> below).
\<close>

type_synonym jsnum = "real option"

definition lift2 :: "(real \<Rightarrow> real \<Rightarrow> real) \<Rightarrow> jsnum \<Rightarrow> jsnum \<Rightarrow> jsnum" where
  "lift2 f a b =
     (case a of None \<Rightarrow> None
      | Some x \<Rightarrow> (case b of None \<Rightarrow> None | Some y \<Rightarrow> Some (f x y)))"

definition cmp :: "(real \<Rightarrow> real \<Rightarrow> bool) \<Rightarrow> jsnum \<Rightarrow> jsnum \<Rightarrow> bool" where
  "cmp p a b =
     (case a of None \<Rightarrow> False
      | Some x \<Rightarrow> (case b of None \<Rightarrow> False | Some y \<Rightarrow> p x y))"

definition ndiv :: "jsnum \<Rightarrow> jsnum \<Rightarrow> jsnum" where
  "ndiv a b = (if b = Some 0 then None else lift2 (/) a b)"

text \<open>The remainder \<open>%\<close> truncates the quotient towards zero.\<close>

definition jsRem :: "real \<Rightarrow> real \<Rightarrow> real" where
  "jsRem x y = x - y * of_int (if 0 \<le> x / y then \<lfloor>x / y\<rfloor> else \<lceil>x / y\<rceil>)"

definition nrem :: "jsnum \<Rightarrow> jsnum \<Rightarrow> jsnum" where
  "nrem a b = (if b = Some 0 then None else lift2 jsRem a b)"

definition nround :: "jsnum \<Rightarrow> jsnum" where
  "nround a = map_option (\<lambda>x. of_int (round x)) a"

definition nabs :: "jsnum \<Rightarrow> jsnum" where
  "nabs a = map_option abs a"

subsection \<open>rgbToHsl and describeColor\<close>

definition rgbToHsl :: "jsnum \<Rightarrow> jsnum \<Rightarrow> jsnum \<Rightarrow> jsnum \<times> jsnum \<times> jsnum" where
  "rgbToHsl r g b =
     (let rNorm = ndiv r (Some 255);
          gNorm = ndiv g (Some 255);
          bNorm = ndiv b (Some 255);
          mx = lift2 max (lift2 max rNorm gNorm) bNorm;
          mn = lift2 min (lift2 min rNorm gNorm) bNorm;
          delta = lift2 (-) mx mn;
          h = (if \<not> cmp (=) delta (Some 0) then
                 (let h1 = (if cmp (=) mx rNorm then
                              nrem (ndiv (lift2 (-) gNorm bNorm) delta) (Some 6)
                            else if cmp (=) mx gNorm then
                              lift2 (+) (ndiv (lift2 (-) bNorm rNorm) delta) (Some 2)
                            else
                              lift2 (+) (ndiv (lift2 (-) rNorm gNorm) delta) (Some 4));
                      h2 = nround (lift2 (*) h1 (Some 60))
                  in if cmp (<) h2 (Some 0) then lift2 (+) h2 (Some 360) else h2)
               else Some 0);
          l = ndiv (lift2 (+) mx mn) (Some 2);
          s = (if cmp (=) delta (Some 0) then Some 0
               else ndiv delta
                      (lift2 (-) (Some 1) (nabs (lift2 (-) (lift2 (*) (Some 2) l) (Some 1)))))
      in (h, s, l))"

text \<open>
  The table of \<open>describeColor\<close> is a list of names with their \<open>match\<close> flags;
  \<open>Array.prototype.find\<close> returns the first entry whose flag is set.
\<close>

definition colorDescriptors :: "jsnum \<Rightarrow> jsnum \<Rightarrow> jsnum \<Rightarrow> (string \<times> bool) list" where
  "colorDescriptors h s l =
     [(''crisp Arctic blue'', cmp (\<ge>) h (Some 200) \<and> cmp (<) h (Some 240) \<and> cmp (>) s (Some 0.2)),
      (''electric violet'', cmp (\<ge>) h (Some 260) \<and> cmp (<) h (Some 300) \<and> cmp (>) s (Some 0.35)),
      (''sunlit amber'', cmp (\<ge>) h (Some 30) \<and> cmp (<) h (Some 60) \<and> cmp (>) l (Some 0.55)),
      (''deep emerald'', cmp (\<ge>) h (Some 130) \<and> cmp (<) h (Some 170) \<and> cmp (>) s (Some 0.25)),
      (''moody indigo'', cmp (\<ge>) h (Some 210) \<and> cmp (<) h (Some 250) \<and> cmp (<) l (Some 0.45)),
      (''faded sepia'', cmp (\<ge>) h (Some 20) \<and> cmp (<) h (Some 50) \<and> cmp (<) s (Some 0.25)),
      (''soft rose'', cmp (\<ge>) h (Some 330) \<or> cmp (<) h (Some 15)),
      (''graphite neutral'', cmp (<) s (Some 0.12))]"

definition describeColor :: "jsnum \<Rightarrow> jsnum \<Rightarrow> jsnum \<Rightarrow> string" where
  "describeColor r g b =
     (case rgbToHsl r g b of
        (h, s, l) \<Rightarrow>
          (case find snd (colorDescriptors h s l) of
             Some found \<Rightarrow> fst found
           | None \<Rightarrow> ''balanced palette''))"

subsection \<open>analyzeFrame\<close>

text \<open>
  \<open>imageData.data\<close> is a \<open>Uint8ClampedArray\<close>: a list of bytes, four for each pixel.
  The result object has the keys \<open>contrast\<close> and \<open>saturation\<close> only when a pixel was
  sampled.
\<close>

record analysis =
  palette :: string
  lighting :: string
  contrast :: "string option"
  saturation :: "string option"
  mood :: string
  energy :: string

record accum =
  rSum :: jsnum
  gSum :: jsnum
  bSum :: jsnum
  brightnessSum :: jsnum
  minBrightness :: jsnum
  maxBrightness :: jsnum
  sampled :: nat

definition byteAt :: "8 word list \<Rightarrow> nat \<Rightarrow> jsnum" where
  "byteAt data i = (if i < length data then Some (real (unat (data ! i))) else None)"

definition stride :: "nat \<Rightarrow> nat" where
  "stride totalPixels = max 4 (totalPixels div 55000 * 4)"

definition initSums :: accum where
  "initSums = \<lparr>rSum = Some 0, gSum = Some 0, bSum = Some 0, brightnessSum = Some 0,
               minBrightness = Some 255, maxBrightness = Some 0, sampled = 0\<rparr>"

text \<open>The body of the sampling loop at byte index \<open>i\<close>.\<close>

definition sampleStep :: "8 word list \<Rightarrow> nat \<Rightarrow> accum \<Rightarrow> accum" where
  "sampleStep data i acc =
     (let r = byteAt data i;
          g = byteAt data (i + 1);
          b = byteAt data (i + 2);
          brightness = lift2 (+) (lift2 (+) (lift2 (*) (Some 0.299) r) (lift2 (*) (Some 0.587) g))
                         (lift2 (*) (Some 0.114) b)
      in \<lparr>rSum = lift2 (+) (rSum acc) r,
          gSum = lift2 (+) (gSum acc) g,
          bSum = lift2 (+) (bSum acc) b,
          brightnessSum = lift2 (+) (brightnessSum acc) brightness,
          minBrightness = (if cmp (<) brightness (minBrightness acc) then brightness
                           else minBrightness acc),
          maxBrightness = (if cmp (>) brightness (maxBrightness acc) then brightness
                           else maxBrightness acc),
          sampled = sampled acc + 1\<rparr>)"

text \<open>
  \<open>for (let i = 0; i < data.length; i += stride)\<close>, where \<open>stride\<close> is the constant
  computed from \<open>totalPixels\<close> before the loop.
\<close>

function sampleLoop :: "8 word list \<Rightarrow> nat \<Rightarrow> nat \<Rightarrow> accum \<Rightarrow> accum" where
  "sampleLoop data totalPixels i acc =
     (if i < length data
      then sampleLoop data totalPixels (i + stride totalPixels) (sampleStep data i acc)
      else acc)"
  by pat_completeness auto
termination
  by (relation "measure (\<lambda>(data, totalPixels, i, acc). length data - i)")
    (auto simp add: stride_def)

declare sampleLoop.simps [simp del]

definition analyzeFrame :: "8 word list \<Rightarrow> nat \<Rightarrow> nat \<Rightarrow> analysis" where
  "analyzeFrame data w h =
     (let totalPixels = w * h;
          acc = sampleLoop data totalPixels 0 initSums
      in if sampled acc = 0 then
           \<lparr>palette = ''balanced palette'', lighting = ''neutral lighting'',
            contrast = None, saturation = None,
            mood = ''steady atmosphere'', energy = ''controlled pacing''\<rparr>
         else
           (let avgR = ndiv (rSum acc) (Some (real (sampled acc)));
                avgG = ndiv (gSum acc) (Some (real (sampled acc)));
                avgB = ndiv (bSum acc) (Some (real (sampled acc)));
                avgBrightness = ndiv (brightnessSum acc) (Some (real (sampled acc)));
                contrast' = ndiv (lift2 (-) (maxBrightness acc) (minBrightness acc)) (Some 255)
            in case rgbToHsl avgR avgG avgB of
                 (h, s, l) \<Rightarrow>
                   \<lparr>palette = describeColor avgR avgG avgB,
                    lighting =
                      (if cmp (>) avgBrightness (Some 200) then ''high-key lighting''
                       else if cmp (>) avgBrightness (Some 150) then ''well-lit scene''
                       else if cmp (>) avgBrightness (Some 100) then ''balanced lighting''
                       else if cmp (>) avgBrightness (Some 60) then ''low-key lighting''
                       else ''shadow-heavy lighting''),
                    contrast =
                      Some (if cmp (>) contrast' (Some 0.55) then ''high contrast visuals''
                            else if cmp (>) contrast' (Some 0.35) then ''structured contrast''
                            else ''soft contrast''),
                    saturation =
                      Some (if cmp (>) s (Some 0.6) then ''vivid saturation''
                            else if cmp (>) s (Some 0.35) then ''rich tones''
                            else if cmp (>) s (Some 0.2) then ''muted palette''
                            else ''desaturated look''),
                    mood =
                      (if cmp (>) l (Some 0.65) then ''uplifting mood''
                       else if cmp (>) l (Some 0.45) then ''balanced mood''
                       else if cmp (>) l (Some 0.28) then ''introspective mood''
                       else ''brooding atmosphere''),
                    energy =
                      (if cmp (>) contrast' (Some 0.55) \<and> cmp (>) s (Some 0.35) then ''kinetic energy''
                       else if cmp (>) contrast' (Some 0.35) then ''dynamic pacing''
                       else ''contemplative pacing'')\<rparr>))"

subsection \<open>Frames and loop states used in the statements\<close>

text \<open>
  An all-black RGBA buffer: a whole number of pixels, each with red, green and blue 0 and
  any alpha.
\<close>

fun allBlack :: "8 word list \<Rightarrow> bool" where
  "allBlack [] = True"
| "allBlack (r # g # b # a # rest) = (r = 0 \<and> g = 0 \<and> b = 0 \<and> allBlack rest)"
| "allBlack _ = False"

text \<open>
  The state of the sampling loop over such a buffer: all sums and the maximum are 0; the
  minimum is 255 before the first sample and 0 after it.
\<close>

definition blackAcc :: "accum \<Rightarrow> bool" where
  "blackAcc acc \<longleftrightarrow> rSum acc = Some 0 \<and> gSum acc = Some 0 \<and> bSum acc = Some 0
     \<and> brightnessSum acc = Some 0 \<and> maxBrightness acc = Some 0
     \<and> (minBrightness acc = Some 0 \<or> minBrightness acc = Some 255)"

section \<open>Prompt text\<close>

subsection \<open>Strings\<close>

text \<open>
  A string is a list of characters (code units below 256). Only the ASCII letters change
  under \<open>toUpperCase\<close> and \<open>toLowerCase\<close> here; the option lists of the page are ASCII.
\<close>

definition newline :: char where
  "newline = CHR 0x0A"

definition toUpperCase :: "char \<Rightarrow> char" where
  "toUpperCase c =
     (let n = of_char c :: nat in if 97 \<le> n \<and> n \<le> 122 then char_of (n - 32) else c)"

definition toLowerCase :: "char \<Rightarrow> char" where
  "toLowerCase c =
     (let n = of_char c :: nat in if 65 \<le> n \<and> n \<le> 90 then char_of (n + 32) else c)"

text \<open>\<open>Array.prototype.join\<close>.\<close>

fun join :: "string \<Rightarrow> string list \<Rightarrow> string" where
  "join sep [] = []"
| "join sep [x] = x"
| "join sep (x # y # ys) = x @ sep @ join sep (y # ys)"

text \<open>
  \<open>Number.prototype.toString\<close> of an integer, after a minus sign when it is negative:
  its decimal digits when there are at most 21 of them (below \<open>10^21\<close>); from
  \<open>10^21\<close> on the exponent form, which is the
  first significant digit, then a point and the other significant digits if there are
  any, then \<open>e+\<close> and the decimal exponent (\<open>1e+21\<close>, \<open>1.23e+24\<close>). The digits are
  those of the exact integer; the code prints the shortest digits that identify its
  double.
\<close>

definition digitChar :: "nat \<Rightarrow> char" where
  "digitChar n = char_of (48 + n)"

fun digits :: "nat \<Rightarrow> string" where
  "digits n = (if n < 10 then [digitChar n] else digits (n div 10) @ [digitChar (n mod 10)])"

declare digits.simps [simp del]

fun stripZeros :: "nat \<Rightarrow> nat" where
  "stripZeros n = (if 0 < n \<and> n mod 10 = 0 then stripZeros (n div 10) else n)"

declare stripZeros.simps [simp del]

definition exponential :: "nat \<Rightarrow> string" where
  "exponential n =
     (case digits (stripZeros n) of
        [] \<Rightarrow> []
      | c # rest \<Rightarrow>
          (c # (if rest = [] then [] else CHR ''.'' # rest)) @ ''e+''
            @ digits (length (digits n) - 1))"

definition numberToString :: "nat \<Rightarrow> string" where
  "numberToString n = (if length (digits n) \<le> 21 then digits n else exponential n)"

definition toString :: "int \<Rightarrow> string" where
  "toString i =
     (if i < 0 then CHR ''-'' # numberToString (nat (- i)) else numberToString (nat i))"

definition padStart :: "nat \<Rightarrow> char \<Rightarrow> string \<Rightarrow> string" where
  "padStart len c s = replicate (len - length s) c @ s"

definition capitalize :: "string \<Rightarrow> string" where
  "capitalize v = (case v of [] \<Rightarrow> [] | c # rest \<Rightarrow> toUpperCase c # rest)"

subsection \<open>formatTime\<close>

text \<open>
  The argument of \<open>formatTime\<close> may be any number, the values that are not finite
  included.
\<close>

datatype number = Num real | NaN | Infinity | NegInfinity

definition pad :: "int \<Rightarrow> string" where
  "pad v = padStart 2 (CHR ''0'') (toString v)"

definition formatTime :: "number \<Rightarrow> string" where
  "formatTime sec =
     (case sec of
        Num seconds \<Rightarrow>
          (let minutes = \<lfloor>seconds / 60\<rfloor>;
               secs = \<lfloor>jsRem seconds 60\<rfloor>;
               ms = \<lfloor>(seconds - of_int \<lfloor>seconds\<rfloor>) * 1000\<rfloor>
           in pad minutes @ '':'' @ pad secs @ ''.'' @ pad \<lfloor>of_int ms / (10 :: real)\<rfloor>)
      | _ \<Rightarrow> ''00:00'')"

subsection \<open>Scene and master prompts\<close>

definition focusOptions :: "(string \<times> string) list" where
  "focusOptions =
     [(''visuals'', ''Visual Style''),
      (''lighting'', ''Lighting''),
      (''narrative'', ''Narrative Beats''),
      (''motion'', ''Motion & Energy''),
      (''mood'', ''Mood & Atmosphere''),
      (''audio'', ''Audio / Sound'')]"

definition focusLabel :: "string \<Rightarrow> string" where
  "focusLabel ident =
     (case find (\<lambda>item. fst item = ident) focusOptions of
        Some option \<Rightarrow> map toLowerCase (snd option)
      | None \<Rightarrow> ident)"

record scene =
  index :: int
  timestamp :: real
  analysis :: analysis
  summary :: string

text \<open>
  \<open>filter(Boolean)\<close> on the descriptors drops the keys that are absent and the empty
  strings. The set \<open>focusAreas\<close> is the list of its elements in insertion order, which
  is what \<open>Array.from\<close> returns.
\<close>

definition present :: "string option list \<Rightarrow> string list" where
  "present xs = concat (map (\<lambda>x. case x of None \<Rightarrow> [] | Some s \<Rightarrow> if s = [] then [] else [s]) xs)"

definition buildScenePrompt ::
  "int \<Rightarrow> real \<Rightarrow> analysis \<Rightarrow> string list \<Rightarrow> string \<Rightarrow> string \<Rightarrow> string \<Rightarrow> string" where
  "buildScenePrompt idx time an focusAreas tone objective stylePreset =
     (let focus = focusAreas;
          focusText = (if focus \<noteq> [] then '' emphasise '' @ join '', '' (map focusLabel focus)
                       else []);
          descriptors = join ''; ''
            (present [Some (palette an), Some (lighting an), saturation an, contrast an,
                      Some (mood an), Some (energy an)])
      in ''Scene '' @ toString (idx + 1) @ '' ('' @ formatTime (Num time) @ ''): ''
           @ capitalize tone @ '' tone with '' @ descriptors @ ''.'' @ focusText
           @ ''. Keep alignment with '' @ objective @ '' in a '' @ stylePreset @ '' approach.'')"

text \<open>
  \<open>buildMasterPrompt\<close>: \<open>masterPromptParts\<close> is the array of the twelve parts after
  \<open>filter(Boolean)\<close>, which drops the empty strings; the result joins them with
  newlines. In a scene line the separator after the time is a middle dot (U+00B7)
  between two spaces.
\<close>

definition sceneLine :: "scene \<Rightarrow> string" where
  "sceneLine sc =
     ''- '' @ formatTime (Num (timestamp sc)) @ [CHR '' '', CHR 0xB7, CHR '' '']
       @ palette (analysis sc) @ '', '' @ lighting (analysis sc) @ '', ''
       @ energy (analysis sc) @ ''.''"

definition masterPromptParts ::
  "scene list \<Rightarrow> string \<Rightarrow> string \<Rightarrow> string \<Rightarrow> string \<Rightarrow> string \<Rightarrow> string list \<Rightarrow> string
     \<Rightarrow> string list" where
  "masterPromptParts scenes projectTitle audienceNotes tone objective stylePreset focusAreas
       customDirectives =
     (let focus = focusAreas;
          focusLine = (if focus \<noteq> [] then ''Prioritise '' @ join '', '' (map focusLabel focus) @ ''.''
                       else []);
          sceneLines = join [newline] (map sceneLine scenes);
          summaryLines = join [newline] (map summary scenes)
      in filter (\<lambda>s. s \<noteq> [])
           [if projectTitle \<noteq> [] then ''Project: '' @ projectTitle
            else ''Project: Untitled video prompt'',
            ''Objective: '' @ capitalize objective @ '' for AI generation.'',
            ''Creative tone: '' @ capitalize tone @ '' blended with '' @ stylePreset @ ''.'',
            focusLine,
            if audienceNotes \<noteq> [] then ''Audience / usage: '' @ audienceNotes else [],
            [],
            ''Scene ingredients:'',
            sceneLines,
            [],
            ''Detailed prompt instructions:'',
            summaryLines,
            if customDirectives \<noteq> [] then newline # ''Extra directives: '' @ customDirectives
            else []])"

definition buildMasterPrompt ::
  "scene list \<Rightarrow> string \<Rightarrow> string \<Rightarrow> string \<Rightarrow> string \<Rightarrow> string \<Rightarrow> string list \<Rightarrow> string
     \<Rightarrow> string" where
  "buildMasterPrompt scenes projectTitle audienceNotes tone objective stylePreset focusAreas
       customDirectives =
     join [newline]
       (masterPromptParts scenes projectTitle audienceNotes tone objective stylePreset focusAreas
          customDirectives)"

subsection \<open>Lines of a text\<close>

text \<open>
  The lines of a text are the pieces between its newlines; \<open>timeShape\<close> recognises the
  texts \<open>mm:ss.cc\<close> with at least two digits of minutes, two of seconds and two of
  hundredths.
\<close>

fun splitOn :: "char \<Rightarrow> string \<Rightarrow> string list" where
  "splitOn c [] = [[]]"
| "splitOn c (x # xs) =
     (if x = c then [] # splitOn c xs
      else (case splitOn c xs of [] \<Rightarrow> [[x]] | l # ls \<Rightarrow> (x # l) # ls))"

definition isDigit :: "char \<Rightarrow> bool" where
  "isDigit c \<longleftrightarrow> 48 \<le> (of_char c :: nat) \<and> (of_char c :: nat) \<le> 57"

definition timeShape :: "string \<Rightarrow> bool" where
  "timeShape s =
     (let mm = takeWhile (\<lambda>c. c \<noteq> CHR '':'') s;
          rest = drop (length mm) s;
          ss = take 2 (drop 1 rest);
          cc = drop 4 rest
      in 2 \<le> length mm \<and> list_all isDigit mm
         \<and> take 1 rest = '':''
         \<and> length ss = 2 \<and> list_all isDigit ss
         \<and> take 1 (drop 3 rest) = ''.''
         \<and> length cc = 2 \<and> list_all isDigit cc)"

definition oneLine :: "string \<Rightarrow> bool" where
  "oneLine s \<longleftrightarrow> newline \<notin> set s"

section \<open>Seeking\<close>

text \<open>
  \<open>seekVideo\<close> runs on the single thread of the page: the executor of the promise
  registers the two handlers and sets the playback position; later the platform
  dispatches \<open>seeked\<close> and \<open>error\<close> events, one at a time. The state is the video
  element (its playback position and its list of listeners for the two events, each with
  its \<open>once\<close> flag) together with the promise that \<open>seekVideo\<close> returned.
  \<open>settleCalls\<close> counts the calls of \<open>resolve\<close> and \<open>reject\<close>; it is not in the
  code and serves to state how often the promise is settled.
\<close>

datatype eventType = Seeked | Error

datatype handler = HandleSeeked | HandleError

datatype promiseState = Pending | Fulfilled | Rejected string

record seekState =
  currentTime :: real
  listeners :: "(eventType \<times> handler \<times> bool) list"
  promise :: promiseState
  settleCalls :: nat

text \<open>
  \<open>addEventListener\<close> ignores a callback that is already registered for the event;
  \<open>removeEventListener\<close> removes it.
\<close>

definition addEventListener :: "eventType \<Rightarrow> handler \<Rightarrow> bool \<Rightarrow> seekState \<Rightarrow> seekState" where
  "addEventListener ty cb once s =
     (if list_ex (\<lambda>(t, c, _). t = ty \<and> c = cb) (listeners s) then s
      else s\<lparr>listeners := listeners s @ [(ty, cb, once)]\<rparr>)"

definition removeEventListener :: "eventType \<Rightarrow> handler \<Rightarrow> seekState \<Rightarrow> seekState" where
  "removeEventListener ty cb s =
     s\<lparr>listeners := filter (\<lambda>(t, c, _). \<not> (t = ty \<and> c = cb)) (listeners s)\<rparr>"

text \<open>A promise is settled by the first call of \<open>resolve\<close> or \<open>reject\<close> only.\<close>

definition resolve :: "seekState \<Rightarrow> seekState" where
  "resolve s =
     s\<lparr>promise := (if promise s = Pending then Fulfilled else promise s),
       settleCalls := settleCalls s + 1\<rparr>"

definition reject :: "string \<Rightarrow> seekState \<Rightarrow> seekState" where
  "reject e s =
     s\<lparr>promise := (if promise s = Pending then Rejected e else promise s),
       settleCalls := settleCalls s + 1\<rparr>"

definition cleanup :: "seekState \<Rightarrow> seekState" where
  "cleanup s = removeEventListener Error HandleError (removeEventListener Seeked HandleSeeked s)"

definition handleSeeked :: "seekState \<Rightarrow> seekState" where
  "handleSeeked s = resolve (cleanup s)"

definition handleError :: "seekState \<Rightarrow> seekState" where
  "handleError s = reject ''seek failed'' (cleanup s)"

fun call :: "handler \<Rightarrow> seekState \<Rightarrow> seekState" where
  "call HandleSeeked s = handleSeeked s"
| "call HandleError s = handleError s"

text \<open>
  Dispatching an event invokes, in order, the listeners that were registered for it when
  the dispatch began and have not been removed since; a listener with the \<open>once\<close> flag
  is removed before its callback runs.
\<close>

definition invoke :: "eventType \<times> handler \<times> bool \<Rightarrow> seekState \<Rightarrow> seekState" where
  "invoke l s =
     (case l of
        (ty, cb, once) \<Rightarrow>
          if l \<in> set (listeners s)
          then call cb (if once then removeEventListener ty cb s else s)
          else s)"

definition dispatchEvent :: "eventType \<Rightarrow> seekState \<Rightarrow> seekState" where
  "dispatchEvent ty s = fold invoke (filter (\<lambda>(t, _, _). t = ty) (listeners s)) s"

text \<open>
  The state after the call \<open>seekVideo(video, time)\<close> on a video at position \<open>t0\<close> on
  which the two new handlers are not registered yet.
\<close>

definition seekVideo :: "real \<Rightarrow> real \<Rightarrow> seekState" where
  "seekVideo t0 time =
     (let s0 = \<lparr>currentTime = t0, listeners = [], promise = Pending, settleCalls = 0\<rparr>;
          s1 = addEventListener Seeked HandleSeeked True s0;
          s2 = addEventListener Error HandleError True s1
      in s2\<lparr>currentTime := time\<rparr>)"

definition settled :: "eventType \<Rightarrow> promiseState" where
  "settled ty = (case ty of Seeked \<Rightarrow> Fulfilled | Error \<Rightarrow> Rejected ''seek failed'')"

section \<open>Properties of the scene sampling\<close>

subsection \<open>The loop of buildCapturePoints in closed form\<close>

lemma pointsLoop_map:
  "pointsLoop d step n i points = points @ map (\<lambda>j. min (d - 0.1) (step * of_int j)) [i..n]"
proof (induction d step n i points rule: pointsLoop.induct)
  case (1 d step n i points)
  show ?case
  proof (cases "i \<le> n")
    case True
    then show ?thesis
      using "1.IH" by (subst pointsLoop.simps) (simp add: upto_rec1 [of i n])
  next
    case False
    then show ?thesis by (subst pointsLoop.simps) simp
  qed
qed

lemma safeDuration_id: "safeDuration d = d"
  by (simp add: safeDuration_def)

lemma buildCapturePoints_map:
  "d \<noteq> 0 \<Longrightarrow> buildCapturePoints d n = map (\<lambda>j. min (d - 0.1) (d / (of_int n + 1) * of_int j)) [1..n]"
  by (simp add: buildCapturePoints_def pointsLoop_map safeDuration_id)

lemma capture_length: "d \<noteq> 0 \<Longrightarrow> 0 \<le> n \<Longrightarrow> int (length (buildCapturePoints d n)) = n"
  by (simp add: buildCapturePoints_map)

lemma capture_below: "0 < d \<Longrightarrow> t \<in> set (buildCapturePoints d n) \<Longrightarrow> t \<le> d - 0.1"
  by (auto simp add: buildCapturePoints_map)

lemma capture_sorted: "0 < d \<Longrightarrow> 0 \<le> n \<Longrightarrow> sorted (buildCapturePoints d n)"
proof -
  assume d: "0 < d" and n: "0 \<le> n"
  have "sorted_wrt (\<le>) (map (\<lambda>j. min (d - 0.1) (d / (of_int n + 1) * of_int j)) [1..n])"
  proof (rule sorted_wrt_map_mono [OF sorted_wrt_upto])
    fix x y :: int
    assume "x < y"
    then have "d / (of_int n + 1) * of_int x \<le> d / (of_int n + 1) * of_int y"
      using d n by (intro mult_left_mono) auto
    then show "min (d - 0.1) (d / (of_int n + 1) * of_int x) \<le> min (d - 0.1) (d / (of_int n + 1) * of_int y)"
      by (simp add: min_def)
  qed
  then show ?thesis using d by (simp add: buildCapturePoints_map)
qed

text \<open>
  The last but one step stays below the clamp \<open>duration - 0.1\<close> exactly when the
  duration exceeds \<open>(sceneCount + 1) / 20\<close> seconds.
\<close>

lemma step_last:
  assumes "0 < (d::real)" "1 \<le> n"
  shows "d / (of_int n + 1) * (of_int n - 1) < d - 1/10 \<longleftrightarrow> (of_int n + 1) / 20 < d"
proof -
  have pos: "0 < (of_int n + 1 :: real)" using assms by linarith
  have "d / (of_int n + 1) * (of_int n - 1) = d - 2 * d / (of_int n + 1)"
    using pos by (simp add: field_simps)
  moreover have "1/10 < 2 * d / (of_int n + 1) \<longleftrightarrow> (of_int n + 1) / 20 < d"
    using pos by (simp add: field_simps)
  ultimately show ?thesis by linarith
qed

lemma capture_strict:
  assumes d: "0 < d" and n: "1 \<le> n" and c: "n = 1 \<or> (of_int n + 1) / 20 < d"
  shows "sorted_wrt (<) (buildCapturePoints d n)"
proof -
  let ?f = "\<lambda>j. min (d - 0.1) (d / (of_int n + 1) * of_int j)"
  have pos: "0 < (of_int n + 1 :: real)" using n by linarith
  have "sorted_wrt (<) (map ?f [1..n])"
  proof (rule sorted_wrt_map_mono [OF sorted_wrt_upto])
    fix x y :: int
    assume xy: "x < y" and "x \<in> set [1..n]" and "y \<in> set [1..n]"
    then have r: "1 \<le> x" "y \<le> n" by auto
    with xy have n2: "n \<noteq> 1" and xn: "x \<le> n - 1" by auto
    from n2 c have "(of_int n + 1) / 20 < d" by simp
    then have last: "d / (of_int n + 1) * (of_int n - 1) < d - 1/10"
      using step_last [OF d n] by simp
    have "d / (of_int n + 1) * of_int x \<le> d / (of_int n + 1) * (of_int n - 1)"
      using d pos xn by (intro mult_left_mono) auto
    then have a: "d / (of_int n + 1) * of_int x < d - 1/10" using last by linarith
    have b: "d / (of_int n + 1) * of_int x < d / (of_int n + 1) * of_int y"
      using d pos xy by (intro mult_strict_left_mono) auto
    show "?f x < ?f y" using a b by (simp add: min_def)
  qed
  then show ?thesis using d by (simp add: buildCapturePoints_map)
qed

lemma capture_pos:
  assumes d: "1/10 < d" and n: "0 \<le> n" and t: "t \<in> set (buildCapturePoints d n)"
  shows "0 < t"
proof -
  from t d obtain j where j: "1 \<le> j" "j \<le> n" and t': "t = min (d - 0.1) (d / (of_int n + 1) * of_int j)"
    by (auto simp add: buildCapturePoints_map)
  have "0 < d / (of_int n + 1) * of_int j"
    using d n j by (intro mult_pos_pos divide_pos_pos) auto
  then show ?thesis using d t' by (simp add: min_def)
qed

subsection \<open>Capture points\<close>

text \<open>
  C1, as stated: for every duration \<open>d > 0\<close> and scene count \<open>n \<ge> 1\<close>,
  \<open>buildCapturePoints d n\<close> has length \<open>n\<close>, is strictly increasing and has all its
  values in \<open>[0, d)\<close>. This fails for short videos: at \<open>d = 1/16\<close> and \<open>n = 3\<close> every
  step lies above the clamp \<open>d - 0.1\<close>, which is negative, so that the three points are
  all \<open>-3/80\<close>.
\<close>

theorem buildCapturePoints_strict_counterexample:
  "(0::real) < 1/16 \<and> (1::int) \<le> 3
   \<and> buildCapturePoints (1/16) 3 = [- 3/80, - 3/80, - 3/80]
   \<and> \<not> sorted_wrt (<) (buildCapturePoints (1/16) 3)
   \<and> \<not> 0 \<le> hd (buildCapturePoints (1/16) 3)"
  by (simp add: buildCapturePoints_def safeDuration_def pointsLoop.simps)

text \<open>
  C1, amended: for every finite duration \<open>d > 0\<close> and scene count \<open>n \<ge> 1\<close>,
  \<open>buildCapturePoints d n\<close> has length \<open>n\<close>, is non-decreasing and has all its values
  at most \<open>d - 0.1\<close>, hence below \<open>d\<close>; it is strictly increasing with all its values
  in \<open>(0, d)\<close> whenever \<open>d \<ge> (n + 1) / 10\<close>, that is, whenever a step is at least
  0.1 seconds, so that no point lies above the clamp. (In exact arithmetic the points are
  strictly increasing from \<open>d > (n + 1) / 20\<close> on; next to that bound the rounding of
  the code's numbers decides, which is why the claim keeps away from it.)
\<close>

theorem buildCapturePoints_amended:
  assumes "0 < d" and "1 \<le> n"
  shows "int (length (buildCapturePoints d n)) = n
       \<and> sorted (buildCapturePoints d n)
       \<and> (\<forall>t \<in> set (buildCapturePoints d n). t \<le> d - 1/10 \<and> t < d)
       \<and> ((of_int n + 1) / 10 \<le> d \<longrightarrow>
            sorted_wrt (<) (buildCapturePoints d n)
            \<and> (\<forall>t \<in> set (buildCapturePoints d n). 0 < t))"
proof (intro conjI impI)
  show "int (length (buildCapturePoints d n)) = n"
    using assms by (simp add: capture_length)
  show "sorted (buildCapturePoints d n)"
    using assms by (simp add: capture_sorted)
  show "\<forall>t \<in> set (buildCapturePoints d n). t \<le> d - 1/10 \<and> t < d"
    using capture_below [OF assms(1)] by fastforce
next
  assume c: "(of_int n + 1) / 10 \<le> d"
  have n2: "2 \<le> (of_int n + 1 :: real)" using assms(2) by simp
  then have "(of_int n + 1) / 20 < (of_int n + 1) / (10 :: real)" by simp
  then have "(of_int n + 1) / 20 < d" using c by linarith
  then show "sorted_wrt (<) (buildCapturePoints d n)"
    using capture_strict [OF assms] by blast
  have "1/10 < d" using c n2 by simp
  then show "\<forall>t \<in> set (buildCapturePoints d n). 0 < t"
    using assms(2) capture_pos [of d n] by auto
qed

theorem buildCapturePoints_amended_witness:
  "(0::real) < 40 \<and> (1::int) \<le> 10 \<and> (of_int 10 + 1) / 10 \<le> (40::real)
   \<and> int (length (buildCapturePoints 40 10)) = 10
   \<and> sorted_wrt (<) (buildCapturePoints 40 10)"
  using buildCapturePoints_amended [of 40 10] by simp

text \<open>
  C6: the effective span \<open>max (d - 0.5) d\<close> is \<open>d\<close> itself, so the capture points are
  those computed with steps of \<open>d / (n + 1)\<close> over the whole duration: the half second
  changes none of them.
\<close>

theorem safeDuration_noop:
  "safeDuration d = d
   \<and> (d \<noteq> 0 \<longrightarrow> buildCapturePoints d n =
        map (\<lambda>i. min (d - 1/10) (d / (of_int n + 1) * of_int i)) [1..n])"
  by (simp add: safeDuration_id buildCapturePoints_map)

theorem safeDuration_noop_witness:
  "safeDuration 40 = 40 \<and> buildCapturePoints 40 3 = [10, 20, 30]"
  using safeDuration_noop [of 40 3] by (simp add: upto_rec1)

subsection \<open>Scene count\<close>

text \<open>
  C3: with a known duration the scene count is
  \<open>min 10 (max 3 (round ((d / 20) * (g + 1))))\<close> and lies between 3 and 10 (for every
  duration and granularity, so in particular for \<open>d > 0\<close> and \<open>g\<close> from 1 to 7); the
  scene count is 0 exactly when there is no video metadata, which after the first load
  event means that the video was missing or its duration was \<open>NaN\<close> or zero.
\<close>

theorem sceneCount_range:
  "sceneCount (Some m) g = min 10 (max 3 (round (duration m / 20 * (of_int g + 1))))
   \<and> 3 \<le> sceneCount (Some m) g \<and> sceneCount (Some m) g \<le> 10
   \<and> (sceneCount meta g = 0 \<longleftrightarrow> meta = None)
   \<and> (sceneCount (handleVideoLoaded video None) g = 0 \<longleftrightarrow>
        (case video of None \<Rightarrow> True
         | Some v \<Rightarrow> video_duration v = None \<or> video_duration v = Some 0))"
  by (auto simp add: sceneCount_def maxSceneSamples_def handleVideoLoaded_def Let_def
        split: option.splits)

theorem sceneCount_range_witness:
  "sceneCount (Some \<lparr>duration = 40, width = 1920, height = 1080\<rparr>) 4 = 10
   \<and> sceneCount (handleVideoLoaded (Some \<lparr>video_duration = Some 0, videoWidth = 0, videoHeight = 0\<rparr>) None) 4 = 0"
  using sceneCount_range [of "\<lparr>duration = 40, width = 1920, height = 1080\<rparr>" 4 None
      "Some \<lparr>video_duration = Some 0, videoWidth = 0, videoHeight = 0\<rparr>"]
  by simp

text \<open>
  C9: the scene count is monotonic in the duration and in the granularity: for
  durations \<open>0 < d1 \<le> d2\<close> and granularities \<open>1 \<le> g1 \<le> g2 \<le> 7\<close>,
  \<open>sceneCount(d1, g1) \<le> sceneCount(d2, g1)\<close> and \<open>sceneCount(d1, g1) \<le> sceneCount(d1, g2)\<close>.
\<close>

theorem sceneCount_mono:
  assumes "0 < duration m1" and "duration m1 \<le> duration m2"
    and "1 \<le> g1" and "g1 \<le> g2" and "g2 \<le> 7"
  shows "sceneCount (Some m1) g1 \<le> sceneCount (Some m2) g1
       \<and> sceneCount (Some m1) g1 \<le> sceneCount (Some m1) g2"
proof -
  have g: "0 \<le> (of_int g1 + 1 :: real)" using assms by linarith
  have "duration m1 / 20 * (of_int g1 + 1) \<le> duration m2 / 20 * (of_int g1 + 1)"
    using assms(2) g by (intro mult_right_mono) auto
  then have a: "round (duration m1 / 20 * (of_int g1 + 1)) \<le> round (duration m2 / 20 * (of_int g1 + 1))"
    by (rule round_mono)
  have "duration m1 / 20 * (of_int g1 + 1) \<le> duration m1 / 20 * (of_int g2 + 1)"
    using assms(1,4) by (intro mult_left_mono) auto
  then have b: "round (duration m1 / 20 * (of_int g1 + 1)) \<le> round (duration m1 / 20 * (of_int g2 + 1))"
    by (rule round_mono)
  show ?thesis using a b by (auto simp add: sceneCount_def Let_def min_def max_def)
qed

theorem sceneCount_mono_witness:
  "sceneCount (Some \<lparr>duration = 10, width = 0, height = 0\<rparr>) 2
     \<le> sceneCount (Some \<lparr>duration = 60, width = 0, height = 0\<rparr>) 2
   \<and> sceneCount (Some \<lparr>duration = 10, width = 0, height = 0\<rparr>) 2
     \<le> sceneCount (Some \<lparr>duration = 10, width = 0, height = 0\<rparr>) 7"
  using sceneCount_mono [of "\<lparr>duration = 10, width = 0, height = 0\<rparr>"
      "\<lparr>duration = 60, width = 0, height = 0\<rparr>" 2 7]
  by simp

section \<open>Properties of the frame analysis\<close>

subsection \<open>The channels stay real numbers\<close>

text \<open>
  For channels between 0 and 255 no divisor of \<open>rgbToHsl\<close> is zero, and hue,
  saturation and lightness are real numbers.
\<close>

lemma rgbToHsl_divisor_pos:
  fixes mx mn :: real
  assumes "0 \<le> mn" "mn < mx" "mx \<le> 1"
  shows "0 < 1 - \<bar>2 * ((mx + mn) / 2) - 1\<bar>"
  using assms by (simp add: abs_if)

lemma rgbToHsl_real:
  assumes "0 \<le> r" "r \<le> 255" "0 \<le> g" "g \<le> 255" "0 \<le> b" "b \<le> 255"
  shows "case rgbToHsl (Some r) (Some g) (Some b) of
           (h, s, l) \<Rightarrow> h \<noteq> None \<and> s \<noteq> None \<and> l \<noteq> None"
proof -
  define mx where "mx = max (max (r / 255) (g / 255)) (b / 255)"
  define mn where "mn = min (min (r / 255) (g / 255)) (b / 255)"
  have r: "0 \<le> mn" "mn \<le> mx" "mx \<le> 1"
    using assms by (auto simp add: mx_def mn_def min_def max_def)
  have d: "mx \<noteq> mn \<Longrightarrow> 1 - \<bar>2 * ((mx + mn) / 2) - 1\<bar> \<noteq> 0"
    using rgbToHsl_divisor_pos [of mn mx] r by auto
  have e: "\<exists>y. mx + mn = y * 2"
    by (rule exI [of _ "(mx + mn) / 2"]) simp
  show ?thesis
    using d e
    by (simp add: rgbToHsl_def ndiv_def nrem_def nround_def nabs_def lift2_def cmp_def Let_def
        mx_def [symmetric] mn_def [symmetric])
qed

subsection \<open>The sampling loop\<close>

lemma stride_pos: "0 < stride n"
  by (simp add: stride_def)

lemma sampled_sampleStep: "sampled (sampleStep data i acc) = sampled acc + 1"
  by (simp add: sampleStep_def Let_def)

lemma ceil_step:
  fixes len i s :: nat
  assumes "0 < s" "i < len"
  shows "(len - i + s - 1) div s = Suc ((len - (i + s) + s - 1) div s)"
proof (cases "i + s \<le> len")
  case True
  then have "len - i + s - 1 = (len - (i + s) + s - 1) + s" using assms by simp
  then show ?thesis using assms by (simp only: div_add_self2)
next
  case False
  then have a: "len - (i + s) + s - 1 = s - 1" by simp
  from False assms have "s \<le> len - i + s - 1" "len - i + s - 1 < 2 * s" by simp_all
  then have "(len - i + s - 1) div s = 1"
    by (simp add: div_nat_eqI)
  then show ?thesis using a assms by simp
qed

lemma sampled_sampleLoop:
  "sampled (sampleLoop data n i acc)
     = sampled acc + (length data - i + stride n - 1) div stride n"
proof (induction data n i acc rule: sampleLoop.induct)
  case (1 data n i acc)
  show ?case
  proof (cases "i < length data")
    case True
    then show ?thesis
      using "1.IH" ceil_step [OF stride_pos, of i "length data" n]
      by (subst sampleLoop.simps) (simp add: sampled_sampleStep)
  next
    case False
    then show ?thesis
      using stride_pos [of n] by (subst sampleLoop.simps) simp
  qed
qed

lemma sampleLoop_foldl:
  "sampleLoop data n i acc
     = foldl (\<lambda>a j. sampleStep data (i + j * stride n) a) acc
         [0..<(length data - i + stride n - 1) div stride n]"
proof (induction data n i acc rule: sampleLoop.induct)
  case (1 data n i acc)
  show ?case
  proof (cases "i < length data")
    case True
    let ?c = "(length data - (i + stride n) + stride n - 1) div stride n"
    have "[0..<Suc ?c] = 0 # map Suc [0..<?c]"
      by (simp add: upt_conv_Cons map_Suc_upt del: upt_Suc)
    then show ?thesis
      using True "1.IH" ceil_step [OF stride_pos, of i "length data" n]
      by (subst sampleLoop.simps) (simp add: foldl_map add.assoc del: upt_Suc)
  next
    case False
    then show ?thesis
      using stride_pos [of n] by (subst sampleLoop.simps) simp
  qed
qed


lemma count_frame:
  "(4 * n + stride n - 1) div stride n = (n + max 1 (n div 55000) - 1) div max 1 (n div 55000)"
proof -
  let ?k = "max 1 (n div 55000)"
  have s: "stride n = 4 * ?k" by (simp add: stride_def max_def)
  have k: "0 < ?k" by simp
  have "(4 * n + 4 * ?k - 1) div (4 * ?k) = ((4 * n + 4 * ?k - 1) div 4) div ?k"
    by (simp add: div_mult2_eq)
  also have "(4 * n + 4 * ?k - 1) div 4 = n + ?k - 1"
    using k by (simp add: div_nat_eqI)
  finally show ?thesis by (simp only: s)
qed

lemma count_small:
  assumes "(n::nat) < 110000"
  shows "(n + max 1 (n div 55000) - 1) div max 1 (n div 55000) = n"
proof -
  have "n div 55000 \<le> 1" using assms by simp
  then have "max 1 (n div 55000) = 1" by (simp add: max_def)
  then show ?thesis by simp
qed

lemma count_large:
  assumes "110000 \<le> (n::nat)"
  shows "55000 \<le> (n + max 1 (n div 55000) - 1) div max 1 (n div 55000)"
    and "(n + max 1 (n div 55000) - 1) div max 1 (n div 55000) \<le> 82500"
proof -
  define k where "k = n div 55000"
  have k2: "2 \<le> k" using assms by (simp add: k_def)
  then have m: "max 1 (n div 55000) = k" by (simp add: k_def max_def)
  have lo: "55000 * k \<le> n" by (simp add: k_def)
  have hi: "n < 55000 * k + 55000"
    using div_mult_mod_eq [of n 55000] mod_less_divisor [of 55000 n] by (simp add: k_def)
  have "55000 * k \<le> n + k - 1" using lo k2 by simp
  then show "55000 \<le> (n + max 1 (n div 55000) - 1) div max 1 (n div 55000)"
    using k2 by (simp add: m less_eq_div_iff_mult_less_eq)
  have "n + k - 1 < 82501 * k" using hi k2 by simp
  then have "(n + k - 1) div k < 82501"
    using k2 by (simp add: less_mult_imp_div_less mult.commute)
  then show "(n + max 1 (n div 55000) - 1) div max 1 (n div 55000) \<le> 82500"
    unfolding m by simp
qed

subsection \<open>The loop over an all-black buffer\<close>

lemma stride_dvd: "4 dvd stride n"
  by (simp add: stride_def max_def)

lemma black_bytes:
  assumes len: "4 dvd length data"
    and black: "\<forall>i < length data. i mod 4 \<noteq> 3 \<longrightarrow> data ! i = 0"
    and i: "4 dvd i" "i < length data"
  shows "byteAt data i = Some 0" "byteAt data (i + 1) = Some 0" "byteAt data (i + 2) = Some 0"
proof -
  from len i have lt: "i + 3 < length data" by presburger
  from i have m: "i mod 4 \<noteq> 3" "(i + 1) mod 4 \<noteq> 3" "(i + 2) mod 4 \<noteq> 3"
    by presburger+
  show "byteAt data i = Some 0" using black lt m by (simp add: byteAt_def)
  show "byteAt data (i + 1) = Some 0" using black lt m by (simp add: byteAt_def)
  show "byteAt data (i + 2) = Some 0" using black lt m by (simp add: byteAt_def)
qed

lemma black_step:
  assumes "4 dvd length data"
    and "\<forall>i < length data. i mod 4 \<noteq> 3 \<longrightarrow> data ! i = 0"
    and "4 dvd i" "i < length data" and "blackAcc acc"
  shows "blackAcc (sampleStep data i acc) \<and> minBrightness (sampleStep data i acc) = Some 0"
  using assms(5) black_bytes [OF assms(1-4)]
  by (auto simp add: blackAcc_def sampleStep_def Let_def lift2_def cmp_def)

lemma black_loop:
  "4 dvd length data \<Longrightarrow> \<forall>i < length data. i mod 4 \<noteq> 3 \<longrightarrow> data ! i = 0 \<Longrightarrow>
   4 dvd i \<Longrightarrow> blackAcc acc \<Longrightarrow>
     blackAcc (sampleLoop data n i acc)
     \<and> (i < length data \<or> minBrightness acc = Some 0
          \<longrightarrow> minBrightness (sampleLoop data n i acc) = Some 0)"
proof (induction data n i acc rule: sampleLoop.induct)
  case (1 data n i acc)
  show ?case
  proof (cases "i < length data")
    case True
    have s: "blackAcc (sampleStep data i acc) \<and> minBrightness (sampleStep data i acc) = Some 0"
      using black_step [OF "1.prems"(1,2,3) True "1.prems"(4)] .
    have d: "4 dvd i + stride n"
      using "1.prems"(3) stride_dvd by (rule dvd_add)
    show ?thesis
      using "1.IH" [OF True "1.prems"(1,2) d] s True by (subst (1 2) sampleLoop.simps) simp
  next
    case False
    then show ?thesis using "1.prems" by (subst (1 2) sampleLoop.simps) simp
  qed
qed

lemma black_result:
  assumes "data \<noteq> []" "4 dvd length data"
    and "\<forall>i < length data. i mod 4 \<noteq> 3 \<longrightarrow> data ! i = 0"
  shows "\<exists>m. 0 < m \<and> sampleLoop data n 0 initSums =
           \<lparr>rSum = Some 0, gSum = Some 0, bSum = Some 0, brightnessSum = Some 0,
            minBrightness = Some 0, maxBrightness = Some 0, sampled = m\<rparr>"
proof -
  let ?r = "sampleLoop data n 0 initSums"
  have "blackAcc initSums" by (simp add: blackAcc_def initSums_def)
  then have "blackAcc ?r \<and> minBrightness ?r = Some 0"
    using black_loop [OF assms(2,3), of 0 initSums n] assms(1) by simp
  moreover have "0 < sampled ?r"
  proof -
    from assms(1) have "0 < length data" by simp
    then have "stride n \<le> length data - 0 + stride n - 1" by linarith
    then show ?thesis
      using stride_pos [of n] by (simp add: sampled_sampleLoop div_greater_zero_iff)
  qed
  ultimately show ?thesis
    by (intro exI [of _ "sampled ?r"]) (simp add: blackAcc_def)
qed

lemma analyzeFrame_black_aux:
  assumes "0 < m"
    and "sampleLoop data (w * h) 0 initSums =
           \<lparr>rSum = Some 0, gSum = Some 0, bSum = Some 0, brightnessSum = Some 0,
            minBrightness = Some 0, maxBrightness = Some 0, sampled = m\<rparr>"
  shows "analyzeFrame data w h =
     \<lparr>palette = ''soft rose'', lighting = ''shadow-heavy lighting'',
      contrast = Some ''soft contrast'', saturation = Some ''desaturated look'',
      mood = ''brooding atmosphere'', energy = ''contemplative pacing''\<rparr>"
proof -
  have avg: "ndiv (Some 0) (Some (real m)) = Some 0"
    using assms(1) by (simp add: ndiv_def lift2_def)
  have hsl: "rgbToHsl (Some 0) (Some 0) (Some 0) = (Some 0, Some 0, Some 0)"
    by (simp add: rgbToHsl_def ndiv_def lift2_def cmp_def Let_def)
  have pal: "describeColor (Some 0) (Some 0) (Some 0) = ''soft rose''"
    by (simp add: describeColor_def hsl colorDescriptors_def cmp_def)
  show ?thesis
    using assms(1)
    by (simp add: analyzeFrame_def assms(2) Let_def avg hsl pal)
       (simp add: ndiv_def lift2_def cmp_def)
qed
lemma allBlack_length: "allBlack data \<Longrightarrow> 4 dvd length data"
proof (induction data rule: allBlack.induct)
  case (2 r g b a rest)
  then have "4 dvd length rest" by simp
  then have "4 dvd length rest + 4" by simp
  then show ?case by (simp add: numeral_eq_Suc)
qed simp_all

lemma allBlack_nth:
  "allBlack data \<Longrightarrow> i < length data \<Longrightarrow> i mod 4 \<noteq> 3 \<Longrightarrow> data ! i = 0"
proof (induction data arbitrary: i rule: allBlack.induct)
  case (2 r g b a rest)
  show ?case
  proof (cases "i < 4")
    case True
    with "2.prems"(3) have "i = 0 \<or> i = 1 \<or> i = 2" by presburger
    then show ?thesis using "2.prems"(1) by (auto simp add: numeral_2_eq_2)
  next
    case False
    then obtain j where j: "i = j + 4" by (metis add.commute le_Suc_ex not_less)
    then have "j < length rest" "j mod 4 \<noteq> 3" using "2.prems" by simp_all
    then have "rest ! j = 0" using "2.IH" "2.prems"(1) by simp
    then show ?thesis by (simp add: j numeral_eq_Suc)
  qed
qed simp_all

subsection \<open>Analysis results\<close>

text \<open>
  C2, as stated: on a non-empty all-black RGBA buffer \<open>analyzeFrame\<close> returns the
  palette "graphite neutral". It does not: grey averages have hue 0, and the entry
  "soft rose" (\<open>h >= 330 || h < 15\<close>) stands before "graphite neutral" in the table
  of \<open>describeColor\<close>. One opaque black pixel:
\<close>

theorem analyzeFrame_black_counterexample:
  "palette (analyzeFrame [0, 0, 0, 255] 1 1) = ''soft rose''
   \<and> palette (analyzeFrame [0, 0, 0, 255] 1 1) \<noteq> ''graphite neutral''"
  by (simp add: analyzeFrame_def sampleLoop.simps stride_def sampleStep_def byteAt_def
      initSums_def lift2_def cmp_def ndiv_def describeColor_def rgbToHsl_def
      colorDescriptors_def Let_def)

text \<open>
  C2, amended: on a non-empty all-black RGBA buffer, for any width and height,
  \<open>analyzeFrame\<close> returns lighting "shadow-heavy lighting", contrast
  "soft contrast", saturation "desaturated look", mood "brooding atmosphere", and the
  palette "soft rose" (the energy is "contemplative pacing").
\<close>

theorem analyzeFrame_black:
  assumes "data \<noteq> []" and "allBlack data"
  shows "analyzeFrame data w h =
     \<lparr>palette = ''soft rose'', lighting = ''shadow-heavy lighting'',
      contrast = Some ''soft contrast'', saturation = Some ''desaturated look'',
      mood = ''brooding atmosphere'', energy = ''contemplative pacing''\<rparr>"
proof -
  have "\<forall>i < length data. i mod 4 \<noteq> 3 \<longrightarrow> data ! i = 0"
    using allBlack_nth [OF assms(2)] by blast
  then show ?thesis
    using black_result [OF assms(1) allBlack_length [OF assms(2)], of "w * h"]
      analyzeFrame_black_aux by blast
qed

theorem analyzeFrame_black_witness:
  "[0, 0, 0, 255, 0, 0, 0, 128 :: 8 word] \<noteq> [] \<and> allBlack [0, 0, 0, 255, 0, 0, 0, 128]
   \<and> analyzeFrame [0, 0, 0, 255, 0, 0, 0, 128] 2 1 =
     \<lparr>palette = ''soft rose'', lighting = ''shadow-heavy lighting'',
      contrast = Some ''soft contrast'', saturation = Some ''desaturated look'',
      mood = ''brooding atmosphere'', energy = ''contemplative pacing''\<rparr>"
  using analyzeFrame_black [of "[0, 0, 0, 255, 0, 0, 0, 128]" 2 1] by simp

text \<open>
  C5: on an empty buffer \<open>analyzeFrame\<close> returns exactly the fixed neutral analysis,
  without the keys \<open>saturation\<close> and \<open>contrast\<close>; a pixel is sampled exactly when
  the buffer is not empty, and then the result has both keys.
\<close>

theorem analyzeFrame_degenerate:
  "analyzeFrame [] w h =
     \<lparr>palette = ''balanced palette'', lighting = ''neutral lighting'',
      contrast = None, saturation = None,
      mood = ''steady atmosphere'', energy = ''controlled pacing''\<rparr>
   \<and> (0 < sampled (sampleLoop data (w * h) 0 initSums) \<longleftrightarrow> data \<noteq> [])
   \<and> (0 < sampled (sampleLoop data (w * h) 0 initSums) \<longrightarrow>
        contrast (analyzeFrame data w h) \<noteq> None \<and> saturation (analyzeFrame data w h) \<noteq> None)"
proof (intro conjI)
  show "analyzeFrame [] w h =
     \<lparr>palette = ''balanced palette'', lighting = ''neutral lighting'',
      contrast = None, saturation = None,
      mood = ''steady atmosphere'', energy = ''controlled pacing''\<rparr>"
    by (simp add: analyzeFrame_def sampleLoop.simps initSums_def)
  show "0 < sampled (sampleLoop data (w * h) 0 initSums) \<longleftrightarrow> data \<noteq> []"
  proof (cases "data = []")
    case True
    then show ?thesis by (simp add: sampleLoop.simps initSums_def)
  next
    case False
    then have "0 < length data" by simp
    then have "stride (w * h) \<le> length data - 0 + stride (w * h) - 1" by linarith
    then show ?thesis
      using False stride_pos [of "w * h"] by (simp add: sampled_sampleLoop div_greater_zero_iff)
  qed
  show "0 < sampled (sampleLoop data (w * h) 0 initSums) \<longrightarrow>
        contrast (analyzeFrame data w h) \<noteq> None \<and> saturation (analyzeFrame data w h) \<noteq> None"
    by (simp add: analyzeFrame_def split_beta Let_def)
qed

theorem analyzeFrame_degenerate_witness:
  "0 < sampled (sampleLoop [12, 200, 7, 255] (1 * 1) 0 initSums)
   \<and> contrast (analyzeFrame [12, 200, 7, 255] 1 1) \<noteq> None
   \<and> saturation (analyzeFrame [12, 200, 7, 255] 1 1) \<noteq> None"
  using analyzeFrame_degenerate [of 1 1 "[12, 200, 7, 255]"] by simp

text \<open>
  C4, as stated: the byte stride is \<open>max(4, floor(w*h/55000))*4\<close>. The code computes
  \<open>max(4, floor(w*h/55000)*4)\<close>, which is smaller for frames under 220000 pixels: for a
  frame of 320 by 240 pixels the stride is 4 bytes (every pixel is sampled), not 16.
\<close>

theorem stride_counterexample:
  "stride (320 * 240) = 4 \<and> max 4 (320 * 240 div 55000) * 4 = (16::nat)
   \<and> stride (320 * 240) \<noteq> max 4 (320 * 240 div 55000) * 4"
  by (simp add: stride_def)

text \<open>
  C4, amended: for a buffer of \<open>w * h\<close> pixels (\<open>4 * w * h\<close> bytes) the loop of
  \<open>analyzeFrame\<close> visits the byte indices \<open>0, stride, 2 * stride, ...\<close> with
  \<open>stride = max(4, floor(w*h/55000)*4)\<close>; it samples
  \<open>ceil(w*h / max(1, floor(w*h/55000)))\<close> pixels, which is every pixel for frames under
  110000 pixels and between 55000 and 82500 pixels for larger frames.
\<close>

theorem analyzeFrame_sampling:
  assumes "length data = 4 * (w * h)"
  shows "stride (w * h) = max 4 (w * h div 55000 * 4)
       \<and> sampleLoop data (w * h) 0 acc =
           foldl (\<lambda>a j. sampleStep data (j * stride (w * h)) a) acc
             [0..<(w * h + max 1 (w * h div 55000) - 1) div max 1 (w * h div 55000)]
       \<and> sampled (sampleLoop data (w * h) 0 initSums) =
           (w * h + max 1 (w * h div 55000) - 1) div max 1 (w * h div 55000)
       \<and> (w * h < 110000 \<longrightarrow> sampled (sampleLoop data (w * h) 0 initSums) = w * h)
       \<and> (110000 \<le> w * h \<longrightarrow>
            55000 \<le> sampled (sampleLoop data (w * h) 0 initSums)
            \<and> sampled (sampleLoop data (w * h) 0 initSums) \<le> 82500)"
proof -
  let ?n = "w * h"
  let ?c = "(?n + max 1 (?n div 55000) - 1) div max 1 (?n div 55000)"
  have c: "(length data - 0 + stride ?n - 1) div stride ?n = ?c"
    using count_frame [of ?n] by (simp add: assms)
  have s: "sampled (sampleLoop data ?n 0 initSums) = ?c"
    by (simp only: sampled_sampleLoop c) (simp add: initSums_def)
  have f: "sampleLoop data ?n 0 acc = foldl (\<lambda>a j. sampleStep data (j * stride ?n) a) acc [0..<?c]"
    by (simp only: sampleLoop_foldl c) simp
  show ?thesis
    using count_small [of ?n] count_large [of ?n]
    by (simp only: s f) (simp add: stride_def)
qed

theorem analyzeFrame_sampling_witness:
  "length [1, 2, 3, 255, 4, 5, 6, 255 :: 8 word] = 4 * (2 * 1)
   \<and> stride (2 * 1) = 4
   \<and> sampled (sampleLoop [1, 2, 3, 255, 4, 5, 6, 255] (2 * 1) 0 initSums) = 2"
  using analyzeFrame_sampling [of "[1, 2, 3, 255, 4, 5, 6, 255]" 2 1 initSums,
      THEN conjunct2, THEN conjunct2]
  by (simp add: stride_def)

section \<open>Properties of the prompt text\<close>

subsection \<open>Formatted times\<close>

lemma isDigit_digitChar: "n < 10 \<Longrightarrow> isDigit (digitChar n)"
  by (simp add: isDigit_def digitChar_def)

lemma digits_isDigit: "list_all isDigit (digits n)"
proof (induction n rule: digits.induct)
  case (1 n)
  show ?case
  proof (cases "n < 10")
    case True
    then show ?thesis by (subst digits.simps) (simp add: isDigit_digitChar)
  next
    case False
    then show ?thesis
      using "1.IH" by (subst digits.simps) (simp add: isDigit_digitChar)
  qed
qed

lemma digits_length_pos: "0 < length (digits n)"
  by (subst digits.simps) simp

lemma digits_length_100: "n < 100 \<Longrightarrow> length (digits n) \<le> 2"
proof (cases "n < 10")
  case True
  then show ?thesis by (subst digits.simps) simp
next
  case False
  assume "n < 100"
  then have "n div 10 < 10" by simp
  then have "digits (n div 10) = [digitChar (n div 10)]" by (subst digits.simps) simp
  then show ?thesis using False by (subst digits.simps) simp
qed

lemma digits_length_pow: "n < 10 ^ Suc k \<Longrightarrow> length (digits n) \<le> Suc k"
proof (induction k arbitrary: n)
  case 0
  then show ?case by (subst digits.simps) simp
next
  case (Suc k)
  show ?case
  proof (cases "n < 10")
    case True
    then show ?thesis by (subst digits.simps) simp
  next
    case False
    from Suc.prems have "n div 10 < 10 ^ Suc k" by (simp add: less_mult_imp_div_less)
    then have "length (digits (n div 10)) \<le> Suc k" by (rule Suc.IH)
    then show ?thesis using False by (subst digits.simps) simp
  qed
qed

lemma toString_decimal: "0 \<le> v \<Longrightarrow> v < 10 ^ 21 \<Longrightarrow> toString v = digits (nat v)"
proof -
  assume v: "0 \<le> v" "v < 10 ^ 21"
  then have "int (nat v) < int (10 ^ 21)" by simp
  then have "nat v < 10 ^ Suc 20" by (simp only: of_nat_less_iff) simp
  then have "length (digits (nat v)) \<le> Suc 20" by (rule digits_length_pow)
  then show ?thesis using v by (simp add: toString_def numberToString_def)
qed

lemma pad_nonneg:
  assumes "0 \<le> v" "v < 10 ^ 21"
  shows "list_all isDigit (pad v)" and "2 \<le> length (pad v)"
  using digits_isDigit [of "nat v"]
  by (auto simp add: pad_def padStart_def toString_decimal [OF assms] isDigit_def list_all_iff)

lemma pad_100:
  assumes "0 \<le> v" "v < 100"
  shows "length (pad v) = 2"
proof -
  have "length (digits (nat v)) \<le> 2" using assms by (intro digits_length_100) simp
  moreover have "toString v = digits (nat v)" using assms by (intro toString_decimal) simp_all
  ultimately show ?thesis by (simp add: pad_def padStart_def)
qed

lemma timeShape_parts:
  assumes mm: "list_all isDigit mm" "2 \<le> length mm"
    and ss: "list_all isDigit ss" "length ss = 2"
    and cc: "list_all isDigit cc" "length cc = 2"
  shows "timeShape (mm @ '':'' @ ss @ ''.'' @ cc)"
proof -
  have "\<forall>c \<in> set mm. c \<noteq> CHR '':''"
    using mm(1) by (auto simp add: list_all_iff isDigit_def)
  then have tw: "takeWhile (\<lambda>c. c \<noteq> CHR '':'') (mm @ '':'' @ ss @ ''.'' @ cc) = mm"
    by (simp add: takeWhile_append2)
  show ?thesis
    unfolding timeShape_def tw Let_def using assms by simp
qed

lemma jsRem_range:
  assumes "0 \<le> x"
  shows "0 \<le> jsRem x 60" and "jsRem x 60 < 60"
proof -
  have q: "0 \<le> x / 60" using assms by simp
  have "of_int \<lfloor>x / 60\<rfloor> \<le> x / 60" "x / 60 < of_int \<lfloor>x / 60\<rfloor> + 1" by linarith+
  then have "60 * of_int \<lfloor>x / 60\<rfloor> \<le> x" "x < 60 * of_int \<lfloor>x / 60\<rfloor> + 60"
    by (simp_all add: field_simps)
  then show "0 \<le> jsRem x 60" "jsRem x 60 < 60"
    using q by (simp_all add: jsRem_def)
qed

lemma frac_range:
  fixes x :: real
  shows "0 \<le> \<lfloor>of_int \<lfloor>(x - of_int \<lfloor>x\<rfloor>) * 1000\<rfloor> / (10 :: real)\<rfloor>"
    and "\<lfloor>of_int \<lfloor>(x - of_int \<lfloor>x\<rfloor>) * 1000\<rfloor> / (10 :: real)\<rfloor> < 100"
proof -
  have f: "0 \<le> x - of_int \<lfloor>x\<rfloor>" "x - of_int \<lfloor>x\<rfloor> < 1" by linarith+
  then have "0 \<le> (x - of_int \<lfloor>x\<rfloor>) * 1000" "(x - of_int \<lfloor>x\<rfloor>) * 1000 < 1000" by simp_all
  then have m: "0 \<le> \<lfloor>(x - of_int \<lfloor>x\<rfloor>) * 1000\<rfloor>" "\<lfloor>(x - of_int \<lfloor>x\<rfloor>) * 1000\<rfloor> < 1000"
    by (simp_all add: floor_less_iff)
  then show "0 \<le> \<lfloor>of_int \<lfloor>(x - of_int \<lfloor>x\<rfloor>) * 1000\<rfloor> / (10 :: real)\<rfloor>"
    by simp
  from m show "\<lfloor>of_int \<lfloor>(x - of_int \<lfloor>x\<rfloor>) * 1000\<rfloor> / (10 :: real)\<rfloor> < 100"
    by (simp add: floor_less_iff)
qed

text \<open>
  C10, as stated: for every finite number of seconds \<open>formatTime\<close> returns a text of
  the shape \<open>mm:ss.cc\<close>, each field padded with zeros to two digits. For a negative
  number the fields carry minus signs and may be longer: \<open>formatTime(-700)\<close> is
  \<open>-12:-40.00\<close>.
\<close>

theorem formatTime_negative_counterexample:
  "formatTime (Num (- 700)) = ''-12:-40.00'' \<and> \<not> timeShape (formatTime (Num (- 700)))"
  by code_simp

text \<open>
  From \<open>6 * 10^22\<close> seconds on the minutes reach \<open>10^21\<close> and print in exponent form.
\<close>

lemma digitChar_values:
  "digitChar 0 = CHR ''0''" "digitChar 1 = CHR ''1''" "digitChar 2 = CHR ''2''"
  "digitChar 3 = CHR ''3''" "digitChar 4 = CHR ''4''" "digitChar 5 = CHR ''5''"
  "digitChar 6 = CHR ''6''" "digitChar 7 = CHR ''7''" "digitChar 8 = CHR ''8''"
  "digitChar 9 = CHR ''9''" "digitChar (Suc 0) = CHR ''1''"
  by code_simp+

lemma toString_exponent: "toString 1000000000000000000000 = ''1e+21''"
  by (simp add: toString_def numberToString_def exponential_def stripZeros.simps digits.simps
      digitChar_values)

lemma formatTime_exponent: "formatTime (Num (6 * 10 ^ 22)) = ''1e+21:00.00''"
proof -
  have "\<lfloor>(6 * 10 ^ 22 :: real) / 60\<rfloor> = 10 ^ 21" by simp
  moreover have "jsRem (6 * 10 ^ 22) 60 = 0" by (simp add: jsRem_def)
  moreover have "pad 0 = ''00''"
    by (simp add: pad_def padStart_def toString_def numberToString_def digits.simps digitChar_values)
  moreover have "pad (10 ^ 21) = ''1e+21''"
    by (simp add: pad_def padStart_def toString_exponent)
  ultimately show ?thesis
    by (simp add: formatTime_def Let_def)
qed

text \<open>
  C10, amended: \<open>formatTime\<close> returns \<open>00:00\<close> for \<open>NaN\<close> and the two infinities,
  and for every finite number of seconds that is not negative and whose minutes
  \<open>Math.floor(seconds / 60)\<close> are below \<open>10^21\<close> it returns a text of the shape
  \<open>mm:ss.cc\<close>: at least two digits of minutes, two digits of seconds and two digits of
  hundredths.
\<close>

theorem formatTime_shape:
  "formatTime NaN = ''00:00'' \<and> formatTime Infinity = ''00:00''
   \<and> formatTime NegInfinity = ''00:00''
   \<and> (0 \<le> seconds \<and> \<lfloor>seconds / 60\<rfloor> < 10 ^ 21 \<longrightarrow> timeShape (formatTime (Num seconds)))"
proof (intro conjI impI)
  assume "0 \<le> seconds \<and> \<lfloor>seconds / 60\<rfloor> < 10 ^ 21"
  then have s: "0 \<le> seconds" and b: "\<lfloor>seconds / 60\<rfloor> < 10 ^ 21" by simp_all
  have m: "0 \<le> \<lfloor>seconds / 60\<rfloor>" using s by simp
  have r': "\<lfloor>jsRem seconds 60\<rfloor> < 10 ^ 21" "\<lfloor>\<lfloor>(seconds - of_int \<lfloor>seconds\<rfloor>) * 1000\<rfloor> / (10 :: real)\<rfloor> < 10 ^ 21"
    using jsRem_range [OF s] frac_range(2) [of seconds] by (simp_all add: floor_less_iff)
  have r: "0 \<le> \<lfloor>jsRem seconds 60\<rfloor>" "\<lfloor>jsRem seconds 60\<rfloor> < 100"
    using jsRem_range [OF s] by (simp_all add: floor_less_iff)
  show "timeShape (formatTime (Num seconds))"
    unfolding formatTime_def number.case Let_def
    by (intro timeShape_parts pad_nonneg pad_100 m b r r' frac_range)
qed (simp_all add: formatTime_def)

theorem formatTime_shape_witness:
  "(0 :: real) \<le> 75349 / 1000 \<and> \<lfloor>(75349 / 1000 :: real) / 60\<rfloor> < 10 ^ 21
   \<and> formatTime (Num (75349 / 1000)) = ''01:15.34''
   \<and> timeShape (formatTime (Num (75349 / 1000)))"
proof -
  have "formatTime (Num (75349 / 1000)) = ''01:15.34''" by code_simp
  moreover have "\<lfloor>(75349 / 1000 :: real) / 60\<rfloor> < 10 ^ 21" by simp
  ultimately show ?thesis using formatTime_shape [of "75349 / 1000"] by simp
qed


subsection \<open>Lines, joins and texts without line breaks\<close>

lemma splitOn_nonempty: "splitOn c s \<noteq> []"
  by (induction s) (simp_all split: list.splits)

lemma splitOn_free: "c \<notin> set s \<Longrightarrow> splitOn c s = [s]"
  by (induction s) auto

lemma splitOn_append: "splitOn c (a @ c # b) = splitOn c a @ splitOn c b"
proof (induction a)
  case (Cons x a)
  then show ?case
    using splitOn_nonempty [of c a] by (cases "splitOn c a") simp_all
qed simp

lemma splitOn_join_free:
  "xs \<noteq> [] \<Longrightarrow> \<forall>x \<in> set xs. c \<notin> set x \<Longrightarrow> splitOn c (join [c] xs) = xs"
proof (induction "[c]" xs rule: join.induct)
  case (3 x y ys)
  then show ?case by (simp add: splitOn_append splitOn_free)
qed (simp_all add: splitOn_free)

lemma splitOn_join:
  "xs \<noteq> [] \<Longrightarrow> splitOn c (join [c] xs) = concat (map (splitOn c) xs)"
proof (induction "[c]" xs rule: join.induct)
  case (3 x y ys)
  then show ?case by (simp add: splitOn_append)
qed simp_all

lemma join_eq_Nil:
  "\<forall>x \<in> set xs. x \<noteq> [] \<Longrightarrow> join sep xs = [] \<longleftrightarrow> xs = []"
  by (induction sep xs rule: join.induct) simp_all

lemma set_join: "set (join sep xs) \<subseteq> set sep \<union> \<Union> (set ` set xs)"
  by (induction sep xs rule: join.induct) auto

lemma oneLine_append [simp]: "oneLine (a @ b) \<longleftrightarrow> oneLine a \<and> oneLine b"
  by (auto simp add: oneLine_def)

lemma oneLine_Cons [simp]: "oneLine (c # s) \<longleftrightarrow> c \<noteq> newline \<and> oneLine s"
  by (auto simp add: oneLine_def)

lemma oneLine_Nil [simp]: "oneLine []"
  by (simp add: oneLine_def)

lemma oneLine_join:
  "oneLine sep \<Longrightarrow> \<forall>x \<in> set xs. oneLine x \<Longrightarrow> oneLine (join sep xs)"
  by (induction sep xs rule: join.induct) simp_all

lemma of_char_newline: "of_char newline = (10::nat)"
  by (simp add: newline_def)

lemma toUpperCase_newline:
  assumes "c \<noteq> newline"
  shows "toUpperCase c \<noteq> newline"
proof (cases "97 \<le> (of_char c :: nat) \<and> (of_char c :: nat) \<le> 122")
  case True
  moreover from True have "((of_char c :: nat) - 32) mod 256 = of_char c - 32"
    by (intro mod_less) linarith
  ultimately have "of_char (toUpperCase c) = (of_char c :: nat) - 32"
    by (simp add: toUpperCase_def Let_def)
  moreover from True have "(of_char c :: nat) - 32 \<noteq> 10" by linarith
  ultimately have "of_char (toUpperCase c) \<noteq> (10::nat)" by simp
  then show ?thesis using of_char_newline by metis
next
  case False
  then show ?thesis using assms by (auto simp add: toUpperCase_def Let_def)
qed

lemma toLowerCase_newline:
  assumes "c \<noteq> newline"
  shows "toLowerCase c \<noteq> newline"
proof (cases "65 \<le> (of_char c :: nat) \<and> (of_char c :: nat) \<le> 90")
  case True
  then have "of_char (toLowerCase c) = (of_char c :: nat) + 32"
    by (simp add: toLowerCase_def Let_def)
  then have "of_char (toLowerCase c) \<noteq> (10::nat)" by simp
  then show ?thesis using of_char_newline by metis
next
  case False
  then show ?thesis using assms by (auto simp add: toLowerCase_def Let_def)
qed

lemma oneLine_capitalize: "oneLine v \<Longrightarrow> oneLine (capitalize v)"
  by (cases v) (simp_all add: capitalize_def toUpperCase_newline)

lemma oneLine_map_toLowerCase: "oneLine s \<Longrightarrow> oneLine (map toLowerCase s)"
  by (induction s) (simp_all add: toLowerCase_newline)

lemma oneLine_focusOptions: "\<forall>item \<in> set focusOptions. oneLine (snd item)"
  by (simp add: focusOptions_def newline_def)

lemma oneLine_focusLabel:
  assumes "oneLine ident"
  shows "oneLine (focusLabel ident)"
proof (cases "find (\<lambda>item. fst item = ident) focusOptions")
  case None
  then show ?thesis using assms by (simp add: focusLabel_def)
next
  case (Some item)
  then have "item \<in> set focusOptions"
    by (auto simp add: find_Some_iff)
  then have "oneLine (snd item)" using oneLine_focusOptions by blast
  then show ?thesis using Some by (simp add: focusLabel_def oneLine_map_toLowerCase)
qed

lemma isDigit_newline: "isDigit c \<Longrightarrow> c \<noteq> newline"
  by (auto simp add: isDigit_def newline_def)

lemma oneLine_digits: "oneLine (digits n)"
  using digits_isDigit [of n] by (induction "digits n") (auto simp add: oneLine_def list_all_iff dest: isDigit_newline)

lemma oneLine_exponential: "oneLine (exponential n)"
proof (cases "digits (stripZeros n)")
  case Nil
  then show ?thesis by (simp add: exponential_def)
next
  case (Cons c rest)
  then have "oneLine (c # rest)" using oneLine_digits [of "stripZeros n"] by simp
  then show ?thesis
    using Cons by (simp add: exponential_def oneLine_digits) (simp add: newline_def)
qed

lemma oneLine_toString: "oneLine (toString i)"
  by (simp add: toString_def numberToString_def oneLine_digits oneLine_exponential)
    (simp add: newline_def)

lemma oneLine_pad: "oneLine (pad v)"
  by (simp add: pad_def padStart_def oneLine_toString) (simp add: oneLine_def newline_def)

lemma oneLine_formatTime: "oneLine (formatTime t)"
  by (cases t) (simp_all add: formatTime_def Let_def oneLine_pad newline_def)

lemma oneLine_sceneLine:
  "oneLine (palette (analysis sc)) \<Longrightarrow> oneLine (lighting (analysis sc)) \<Longrightarrow>
   oneLine (energy (analysis sc)) \<Longrightarrow> oneLine (sceneLine sc)"
  by (simp add: sceneLine_def oneLine_formatTime) (simp add: newline_def)

lemma sceneLine_nonempty: "sceneLine sc \<noteq> []"
  by (simp add: sceneLine_def)

subsection \<open>The lines of the master prompt\<close>

lemma masterPromptParts_eq:
  assumes "\<forall>sc \<in> set scenes. summary sc \<noteq> []"
  shows "masterPromptParts scenes projectTitle audienceNotes tone objective stylePreset focusAreas
           customDirectives =
     [if projectTitle \<noteq> [] then ''Project: '' @ projectTitle
      else ''Project: Untitled video prompt'',
      ''Objective: '' @ capitalize objective @ '' for AI generation.'',
      ''Creative tone: '' @ capitalize tone @ '' blended with '' @ stylePreset @ ''.'']
     @ (if focusAreas \<noteq> [] then [''Prioritise '' @ join '', '' (map focusLabel focusAreas) @ ''.'']
        else [])
     @ (if audienceNotes \<noteq> [] then [''Audience / usage: '' @ audienceNotes] else [])
     @ [''Scene ingredients:'']
     @ (if scenes \<noteq> [] then [join [newline] (map sceneLine scenes)] else [])
     @ [''Detailed prompt instructions:'']
     @ (if scenes \<noteq> [] then [join [newline] (map summary scenes)] else [])
     @ (if customDirectives \<noteq> [] then [newline # ''Extra directives: '' @ customDirectives]
        else [])"
proof -
  have a: "join [newline] (map sceneLine scenes) = [] \<longleftrightarrow> scenes = []"
    using join_eq_Nil [of "map sceneLine scenes" "[newline]"] by (simp add: sceneLine_nonempty)
  have b: "join [newline] (map summary scenes) = [] \<longleftrightarrow> scenes = []"
    using join_eq_Nil [of "map summary scenes" "[newline]"] assms by simp
  show ?thesis
    by (simp add: masterPromptParts_def Let_def a b)
qed

lemma masterPrompt_lines:
  assumes scenes: "\<forall>sc \<in> set scenes. summary sc \<noteq> [] \<and> oneLine (summary sc)
            \<and> oneLine (palette (analysis sc)) \<and> oneLine (lighting (analysis sc))
            \<and> oneLine (energy (analysis sc))"
    and texts: "oneLine projectTitle" "oneLine audienceNotes" "oneLine tone" "oneLine objective"
      "oneLine stylePreset" "oneLine customDirectives"
    and focus: "\<forall>ident \<in> set focusAreas. oneLine ident"
  shows "splitOn newline
           (buildMasterPrompt scenes projectTitle audienceNotes tone objective stylePreset
              focusAreas customDirectives) =
     [if projectTitle \<noteq> [] then ''Project: '' @ projectTitle
      else ''Project: Untitled video prompt'',
      ''Objective: '' @ capitalize objective @ '' for AI generation.'',
      ''Creative tone: '' @ capitalize tone @ '' blended with '' @ stylePreset @ ''.'']
     @ (if focusAreas \<noteq> [] then [''Prioritise '' @ join '', '' (map focusLabel focusAreas) @ ''.'']
        else [])
     @ (if audienceNotes \<noteq> [] then [''Audience / usage: '' @ audienceNotes] else [])
     @ [''Scene ingredients:'']
     @ map sceneLine scenes
     @ [''Detailed prompt instructions:'']
     @ map summary scenes
     @ (if customDirectives \<noteq> [] then [[], ''Extra directives: '' @ customDirectives]
        else [])"
proof -
  have l1: "splitOn newline (if projectTitle \<noteq> [] then ''Project: '' @ projectTitle
      else ''Project: Untitled video prompt'') = [if projectTitle \<noteq> [] then ''Project: '' @ projectTitle
      else ''Project: Untitled video prompt'']"
    using texts(1) by (intro splitOn_free) (simp add: oneLine_def newline_def)
  have l2: "splitOn newline (''Objective: '' @ capitalize objective @ '' for AI generation.'')
      = [''Objective: '' @ capitalize objective @ '' for AI generation.'']"
    using oneLine_capitalize [OF texts(4)]
    by (intro splitOn_free) (simp add: oneLine_def newline_def)
  have l3: "splitOn newline (''Creative tone: '' @ capitalize tone @ '' blended with '' @ stylePreset @ ''.'')
      = [''Creative tone: '' @ capitalize tone @ '' blended with '' @ stylePreset @ ''.'']"
    using oneLine_capitalize [OF texts(3)] texts(5)
    by (intro splitOn_free) (simp add: oneLine_def newline_def)
  have "oneLine (join '', '' (map focusLabel focusAreas))"
    using focus by (intro oneLine_join) (simp_all add: oneLine_focusLabel newline_def)
  then have l4: "splitOn newline (''Prioritise '' @ join '', '' (map focusLabel focusAreas) @ ''.'')
      = [''Prioritise '' @ join '', '' (map focusLabel focusAreas) @ ''.'']"
    by (intro splitOn_free) (simp add: oneLine_def newline_def)
  have l5: "splitOn newline (''Audience / usage: '' @ audienceNotes) = [''Audience / usage: '' @ audienceNotes]"
    using texts(2) by (intro splitOn_free) (simp add: oneLine_def newline_def)
  have l6: "splitOn newline ''Scene ingredients:'' = [''Scene ingredients:'']"
    by (intro splitOn_free) (simp add: newline_def)
  have l7: "scenes \<noteq> [] \<Longrightarrow> splitOn newline (join [newline] (map sceneLine scenes)) = map sceneLine scenes"
    using scenes by (intro splitOn_join_free) (auto simp add: oneLine_def [symmetric] oneLine_sceneLine)
  have l8: "splitOn newline ''Detailed prompt instructions:'' = [''Detailed prompt instructions:'']"
    by (intro splitOn_free) (simp add: newline_def)
  have l9: "scenes \<noteq> [] \<Longrightarrow> splitOn newline (join [newline] (map summary scenes)) = map summary scenes"
    using scenes by (intro splitOn_join_free) (auto simp add: oneLine_def [symmetric])
  have "splitOn newline (''Extra directives: '' @ customDirectives) = [''Extra directives: '' @ customDirectives]"
    using texts(6) by (intro splitOn_free) (simp add: oneLine_def newline_def)
  then have l10: "splitOn newline (newline # ''Extra directives: '' @ customDirectives)
      = [[], ''Extra directives: '' @ customDirectives]"
    by (simp only: splitOn.simps) simp
  have p: "\<forall>sc \<in> set scenes. summary sc \<noteq> []" using scenes by blast
  have ne: "masterPromptParts scenes projectTitle audienceNotes tone objective stylePreset focusAreas
           customDirectives \<noteq> []"
    by (simp add: masterPromptParts_eq [OF p])
  show ?thesis
    unfolding buildMasterPrompt_def splitOn_join [OF ne]
    unfolding masterPromptParts_eq [OF p]
    using l7 l9
    by (simp only: map_append concat_append list.map concat.simps l1 l2 l3 l4 l5 l6 l8 l10
        if_distrib [of "map (splitOn newline)"] if_distrib [of concat] append_Nil2 append_Nil
        split: if_splits) simp
qed

lemma oneLine_present:
  "\<forall>x \<in> set xs. case x of None \<Rightarrow> True | Some s \<Rightarrow> oneLine s \<Longrightarrow>
   \<forall>s \<in> set (present xs). oneLine s"
  by (auto simp add: present_def split: option.splits if_splits)

lemma buildScenePrompt_nonempty:
  "buildScenePrompt idx time an focusAreas tone objective stylePreset \<noteq> []"
  by (simp add: buildScenePrompt_def Let_def)

lemma buildScenePrompt_oneLine:
  assumes "oneLine (palette an)" "oneLine (lighting an)" "oneLine (mood an)" "oneLine (energy an)"
    and "case saturation an of None \<Rightarrow> True | Some s \<Rightarrow> oneLine s"
    and "case contrast an of None \<Rightarrow> True | Some s \<Rightarrow> oneLine s"
    and "oneLine tone" "oneLine objective" "oneLine stylePreset"
    and "\<forall>ident \<in> set focusAreas. oneLine ident"
  shows "oneLine (buildScenePrompt idx time an focusAreas tone objective stylePreset)"
proof -
  have f: "oneLine (join '', '' (map focusLabel focusAreas))"
    using assms(10) by (intro oneLine_join) (simp_all add: oneLine_focusLabel newline_def)
  have "\<forall>s \<in> set (present [Some (palette an), Some (lighting an), saturation an, contrast an,
                      Some (mood an), Some (energy an)]). oneLine s"
    using assms(1-6) by (intro oneLine_present) simp
  then have d: "oneLine (join ''; '' (present [Some (palette an), Some (lighting an), saturation an,
                      contrast an, Some (mood an), Some (energy an)]))"
    by (intro oneLine_join) (simp_all add: newline_def)
  show ?thesis
    using f d assms(7-9)
    by (simp add: buildScenePrompt_def Let_def oneLine_toString oneLine_formatTime
        oneLine_capitalize)
      (simp add: newline_def)
qed

lemma masterPromptParts_kept:
  "masterPromptParts scenes projectTitle audienceNotes tone objective stylePreset focusAreas
     customDirectives =
     [if projectTitle \<noteq> [] then ''Project: '' @ projectTitle
      else ''Project: Untitled video prompt'',
      ''Objective: '' @ capitalize objective @ '' for AI generation.'',
      ''Creative tone: '' @ capitalize tone @ '' blended with '' @ stylePreset @ ''.'']
     @ (if focusAreas \<noteq> [] then [''Prioritise '' @ join '', '' (map focusLabel focusAreas) @ ''.'']
        else [])
     @ (if audienceNotes \<noteq> [] then [''Audience / usage: '' @ audienceNotes] else [])
     @ [''Scene ingredients:'']
     @ (if scenes \<noteq> [] then [join [newline] (map sceneLine scenes)] else [])
     @ [''Detailed prompt instructions:'']
     @ (if join [newline] (map summary scenes) \<noteq> [] then [join [newline] (map summary scenes)]
        else [])
     @ (if customDirectives \<noteq> [] then [newline # ''Extra directives: '' @ customDirectives]
        else [])"
proof -
  have a: "join [newline] (map sceneLine scenes) = [] \<longleftrightarrow> scenes = []"
    using join_eq_Nil [of "map sceneLine scenes" "[newline]"] by (simp add: sceneLine_nonempty)
  show ?thesis
    by (simp add: masterPromptParts_def Let_def a)
qed

lemma masterPromptParts_nonempty:
  "[] \<notin> set (masterPromptParts scenes projectTitle audienceNotes tone objective stylePreset
      focusAreas customDirectives)"
  unfolding masterPromptParts_def Let_def by (simp only: set_filter) blast

lemma masterPromptParts_some:
  "masterPromptParts scenes projectTitle audienceNotes tone objective stylePreset
      focusAreas customDirectives \<noteq> []"
  by (simp add: masterPromptParts_kept)

lemma masterPrompt_split:
  "splitOn newline
     (buildMasterPrompt scenes projectTitle audienceNotes tone objective stylePreset focusAreas
        customDirectives) =
   concat (map (splitOn newline)
     (masterPromptParts scenes projectTitle audienceNotes tone objective stylePreset focusAreas
        customDirectives))"
  unfolding buildMasterPrompt_def by (rule splitOn_join) (rule masterPromptParts_some)

lemma masterPrompt_blank:
  assumes "customDirectives \<noteq> []"
  shows "[] \<in> set (splitOn newline
     (buildMasterPrompt scenes projectTitle audienceNotes tone objective stylePreset focusAreas
        customDirectives))"
proof -
  let ?p = "newline # ''Extra directives: '' @ customDirectives"
  have "?p \<in> set (masterPromptParts scenes projectTitle audienceNotes tone objective stylePreset
      focusAreas customDirectives)"
    using assms by (simp add: masterPromptParts_kept)
  moreover have "[] \<in> set (splitOn newline ?p)"
    by (simp only: splitOn.simps) simp
  ultimately show ?thesis
    unfolding masterPrompt_split by (simp only: set_concat set_map) blast
qed

lemma masterPrompt_no_blank:
  assumes cd: "customDirectives = []"
    and texts: "oneLine projectTitle" "oneLine audienceNotes" "oneLine tone" "oneLine objective"
      "oneLine stylePreset"
    and focus: "\<forall>ident \<in> set focusAreas. oneLine ident"
    and scenes: "\<forall>sc \<in> set scenes. summary sc \<noteq> [] \<and> oneLine (summary sc)
            \<and> oneLine (palette (analysis sc)) \<and> oneLine (lighting (analysis sc))
            \<and> oneLine (energy (analysis sc))"
  shows "[] \<notin> set (splitOn newline
     (buildMasterPrompt scenes projectTitle audienceNotes tone objective stylePreset focusAreas
        customDirectives))"
proof -
  have c: "oneLine customDirectives" using cd by simp
  note lines = masterPrompt_lines [OF scenes texts c focus]
  have e1: "\<And>sc. sc \<in> set scenes \<Longrightarrow> [] \<noteq> summary sc" using scenes by (simp add: eq_commute)
  have e2: "\<And>sc. [] \<noteq> sceneLine sc" by (simp add: sceneLine_def)
  show ?thesis
    unfolding lines using e1 e2 cd
    by (auto simp add: image_iff)
qed

text \<open>
  C7, as stated: the result of \<open>buildMasterPrompt\<close> contains no empty line. The last
  part starts with a newline before "Extra directives: ", which makes an empty line
  whenever there are custom directives.
\<close>

theorem buildMasterPrompt_blank_counterexample:
  "[] \<in> set (splitOn newline
      (buildMasterPrompt [] [] [] ''documentary'' ''narrative prompt'' ''hyper-detailed'' []
         ''mention lens selection''))"
  by code_simp

text \<open>
  C7, amended: for every scene sequence and configuration, the parts that
  \<open>buildMasterPrompt\<close> keeps are, in this order: the project, objective and tone lines;
  the "Prioritise ..." line if and only if at least one focus area is selected; the
  "Audience / usage: ..." line if and only if \<open>audienceNotes\<close> is not empty;
  "Scene ingredients:"; the scene lines if there are scenes; "Detailed prompt
  instructions:"; the joined summaries if that text is not empty; and, if
  \<open>customDirectives\<close> is not empty, a part that starts with a line break before
  "Extra directives: ...". No kept part is empty, and the lines of the result are the
  lines of the kept parts, in order. So the result has an empty line whenever
  \<open>customDirectives\<close> is not empty; it has none when \<open>customDirectives\<close> is empty, no
  scene summary is empty, and none of \<open>projectTitle\<close>, \<open>audienceNotes\<close>, \<open>tone\<close>,
  \<open>objective\<close>, \<open>stylePreset\<close>, the focus ids and each scene's palette, lighting,
  energy and summary contains a line break.
\<close>

theorem buildMasterPrompt_lines:
  "masterPromptParts scenes projectTitle audienceNotes tone objective stylePreset focusAreas
     customDirectives =
     [if projectTitle \<noteq> [] then ''Project: '' @ projectTitle
      else ''Project: Untitled video prompt'',
      ''Objective: '' @ capitalize objective @ '' for AI generation.'',
      ''Creative tone: '' @ capitalize tone @ '' blended with '' @ stylePreset @ ''.'']
     @ (if focusAreas \<noteq> [] then [''Prioritise '' @ join '', '' (map focusLabel focusAreas) @ ''.'']
        else [])
     @ (if audienceNotes \<noteq> [] then [''Audience / usage: '' @ audienceNotes] else [])
     @ [''Scene ingredients:'']
     @ (if scenes \<noteq> [] then [join [newline] (map sceneLine scenes)] else [])
     @ [''Detailed prompt instructions:'']
     @ (if join [newline] (map summary scenes) \<noteq> [] then [join [newline] (map summary scenes)]
        else [])
     @ (if customDirectives \<noteq> [] then [newline # ''Extra directives: '' @ customDirectives]
        else [])
   \<and> [] \<notin> set (masterPromptParts scenes projectTitle audienceNotes tone objective stylePreset
              focusAreas customDirectives)
   \<and> splitOn newline
         (buildMasterPrompt scenes projectTitle audienceNotes tone objective stylePreset focusAreas
            customDirectives) =
       concat (map (splitOn newline)
         (masterPromptParts scenes projectTitle audienceNotes tone objective stylePreset focusAreas
            customDirectives))
   \<and> (customDirectives \<noteq> [] \<longrightarrow>
        [] \<in> set (splitOn newline
          (buildMasterPrompt scenes projectTitle audienceNotes tone objective stylePreset
             focusAreas customDirectives)))
   \<and> (customDirectives = []
        \<and> oneLine projectTitle \<and> oneLine audienceNotes \<and> oneLine tone \<and> oneLine objective
        \<and> oneLine stylePreset \<and> (\<forall>ident \<in> set focusAreas. oneLine ident)
        \<and> (\<forall>sc \<in> set scenes. summary sc \<noteq> [] \<and> oneLine (summary sc)
              \<and> oneLine (palette (analysis sc)) \<and> oneLine (lighting (analysis sc))
              \<and> oneLine (energy (analysis sc)))
        \<longrightarrow>
        [] \<notin> set (splitOn newline
          (buildMasterPrompt scenes projectTitle audienceNotes tone objective stylePreset
             focusAreas customDirectives)))"
proof (intro conjI impI)
  show "masterPromptParts scenes projectTitle audienceNotes tone objective stylePreset focusAreas
     customDirectives =
     [if projectTitle \<noteq> [] then ''Project: '' @ projectTitle
      else ''Project: Untitled video prompt'',
      ''Objective: '' @ capitalize objective @ '' for AI generation.'',
      ''Creative tone: '' @ capitalize tone @ '' blended with '' @ stylePreset @ ''.'']
     @ (if focusAreas \<noteq> [] then [''Prioritise '' @ join '', '' (map focusLabel focusAreas) @ ''.'']
        else [])
     @ (if audienceNotes \<noteq> [] then [''Audience / usage: '' @ audienceNotes] else [])
     @ [''Scene ingredients:'']
     @ (if scenes \<noteq> [] then [join [newline] (map sceneLine scenes)] else [])
     @ [''Detailed prompt instructions:'']
     @ (if join [newline] (map summary scenes) \<noteq> [] then [join [newline] (map summary scenes)]
        else [])
     @ (if customDirectives \<noteq> [] then [newline # ''Extra directives: '' @ customDirectives]
        else [])"
    by (rule masterPromptParts_kept)
  show "[] \<notin> set (masterPromptParts scenes projectTitle audienceNotes tone objective stylePreset
              focusAreas customDirectives)"
    by (rule masterPromptParts_nonempty)
  show "splitOn newline
         (buildMasterPrompt scenes projectTitle audienceNotes tone objective stylePreset focusAreas
            customDirectives) =
       concat (map (splitOn newline)
         (masterPromptParts scenes projectTitle audienceNotes tone objective stylePreset focusAreas
            customDirectives))"
    by (rule masterPrompt_split)
next
  assume "customDirectives \<noteq> []"
  then show "[] \<in> set (splitOn newline
          (buildMasterPrompt scenes projectTitle audienceNotes tone objective stylePreset
             focusAreas customDirectives))"
    by (rule masterPrompt_blank)
next
  assume h: "customDirectives = []
        \<and> oneLine projectTitle \<and> oneLine audienceNotes \<and> oneLine tone \<and> oneLine objective
        \<and> oneLine stylePreset \<and> (\<forall>ident \<in> set focusAreas. oneLine ident)
        \<and> (\<forall>sc \<in> set scenes. summary sc \<noteq> [] \<and> oneLine (summary sc)
              \<and> oneLine (palette (analysis sc)) \<and> oneLine (lighting (analysis sc))
              \<and> oneLine (energy (analysis sc)))"
  show "[] \<notin> set (splitOn newline
          (buildMasterPrompt scenes projectTitle audienceNotes tone objective stylePreset
             focusAreas customDirectives))"
    using h by (intro masterPrompt_no_blank) simp_all
qed

theorem buildMasterPrompt_lines_witness:
  "''Audience / usage: print campaign''
     \<in> set (masterPromptParts
           [\<lparr>index = 0, timestamp = 10,
             analysis = \<lparr>palette = ''soft rose'', lighting = ''low-key lighting'',
                         contrast = None, saturation = None,
                         mood = ''brooding atmosphere'', energy = ''dynamic pacing''\<rparr>,
             summary = ''Scene 1 (00:10.00): Moody noir tone with soft rose.''\<rparr>]
           ''Aurora'' ''print campaign'' ''moody noir'' ''shot list for directors''
           ''hyper-detailed'' [''visuals'', ''mood''] [])
   \<and> [] \<notin> set (splitOn newline
        (buildMasterPrompt
           [\<lparr>index = 0, timestamp = 10,
             analysis = \<lparr>palette = ''soft rose'', lighting = ''low-key lighting'',
                         contrast = None, saturation = None,
                         mood = ''brooding atmosphere'', energy = ''dynamic pacing''\<rparr>,
             summary = ''Scene 1 (00:10.00): Moody noir tone with soft rose.''\<rparr>]
           ''Aurora'' ''print campaign'' ''moody noir'' ''shot list for directors''
           ''hyper-detailed'' [''visuals'', ''mood''] []))"
proof -
  have nl: "\<And>s. oneLine s \<longleftrightarrow> CHR 0x0A \<notin> set s" by (simp add: oneLine_def newline_def)
  note t = buildMasterPrompt_lines
      [of "[\<lparr>index = 0, timestamp = 10,
             analysis = \<lparr>palette = ''soft rose'', lighting = ''low-key lighting'',
                         contrast = None, saturation = None,
                         mood = ''brooding atmosphere'', energy = ''dynamic pacing''\<rparr>,
             summary = ''Scene 1 (00:10.00): Moody noir tone with soft rose.''\<rparr>]"
          "''Aurora''" "''print campaign''" "''moody noir''" "''shot list for directors''"
          "''hyper-detailed''" "[''visuals'', ''mood'']" "[]"]
  have a: "''Audience / usage: print campaign''
     \<in> set (masterPromptParts
           [\<lparr>index = 0, timestamp = 10,
             analysis = \<lparr>palette = ''soft rose'', lighting = ''low-key lighting'',
                         contrast = None, saturation = None,
                         mood = ''brooding atmosphere'', energy = ''dynamic pacing''\<rparr>,
             summary = ''Scene 1 (00:10.00): Moody noir tone with soft rose.''\<rparr>]
           ''Aurora'' ''print campaign'' ''moody noir'' ''shot list for directors''
           ''hyper-detailed'' [''visuals'', ''mood''] [])"
    by (subst t [THEN conjunct1]) simp
  have b: "[] \<notin> set (splitOn newline
        (buildMasterPrompt
           [\<lparr>index = 0, timestamp = 10,
             analysis = \<lparr>palette = ''soft rose'', lighting = ''low-key lighting'',
                         contrast = None, saturation = None,
                         mood = ''brooding atmosphere'', energy = ''dynamic pacing''\<rparr>,
             summary = ''Scene 1 (00:10.00): Moody noir tone with soft rose.''\<rparr>]
           ''Aurora'' ''print campaign'' ''moody noir'' ''shot list for directors''
           ''hyper-detailed'' [''visuals'', ''mood''] []))"
    by (rule t [THEN conjunct2, THEN conjunct2, THEN conjunct2, THEN conjunct2, THEN mp])
      (simp add: nl)
  show ?thesis using a b by (rule conjI)
qed

section \<open>Properties of seeking\<close>

lemma seekVideo_state:
  "seekVideo t0 time = \<lparr>currentTime = time,
      listeners = [(Seeked, HandleSeeked, True), (Error, HandleError, True)],
      promise = Pending, settleCalls = 0\<rparr>"
  by (simp add: seekVideo_def addEventListener_def)

lemma dispatch_first:
  "dispatchEvent ty (seekVideo t0 time) =
     \<lparr>currentTime = time, listeners = [], promise = settled ty, settleCalls = 1\<rparr>"
  by (cases ty)
    (simp_all add: seekVideo_state dispatchEvent_def invoke_def removeEventListener_def
      handleSeeked_def handleError_def cleanup_def resolve_def reject_def settled_def)

lemma dispatch_no_listeners: "listeners s = [] \<Longrightarrow> dispatchEvent ty s = s"
  by (simp add: dispatchEvent_def)

lemma dispatch_later: "listeners s = [] \<Longrightarrow> fold dispatchEvent evs s = s"
  by (induction evs) (simp_all add: dispatch_no_listeners)

text \<open>
  C8: \<open>seekVideo\<close> sets the playback position and leaves the promise pending until an
  event arrives. The first \<open>seeked\<close> or \<open>error\<close> event settles the promise, with one
  call of \<open>resolve\<close> (on \<open>seeked\<close>) or of \<open>reject\<close> with the error "seek failed" (on
  \<open>error\<close>), and leaves no handler registered; whatever events follow, the state stays
  the one reached after the first, so the promise is not settled again.
\<close>

theorem seekVideo_settles_once:
  "currentTime (seekVideo t0 time) = time
   \<and> promise (seekVideo t0 time) = Pending
   \<and> fold dispatchEvent (ev # evs) (seekVideo t0 time) =
       \<lparr>currentTime = time, listeners = [], promise = settled ev, settleCalls = 1\<rparr>
   \<and> settled Seeked = Fulfilled \<and> settled Error = Rejected ''seek failed''"
  by (simp add: dispatch_first dispatch_later) (simp add: seekVideo_state settled_def)

end
